theory Spec2Isabelle
  imports Complex_Main
begin

section \<open>Particles on a 1-D line segment: the relaxation step\<close>

text \<open>
  The four scripts under \<open>src/physics\<close> relax point particles on a line segment.
  \<open>particles_1d_line_segment_n_02\<close> and \<open>particles_1d_line_segment_04_02\<close> share one
  core (class \<open>Particle\<close> and the callback \<open>update_graphics\<close>) and differ in the particles
  they create; \<open>particles_1d_line_segment_03_02.py\<close> has one free particle and no class;
  \<open>particles_1d_line_segment_03_02.py.py\<close> is an earlier revision of the latter.

  Positions and forces are Python and numpy floats in the source. The development
  reads the arithmetic in two ways. The first part takes positions and forces as exact
  reals; it is used for what does not depend on rounding: the order of the updates, what
  a tick changes and what it leaves alone, what the result depends on, and convergence
  up to a tolerance. There a zero denominator is the value \<open>None\<close>. The second part
  (the subsections on double arithmetic) rounds every operation to an IEEE double; it is
  used for what is said about exact values and about finite results.
\<close>

subsection \<open>Arithmetic that can fail\<close>

text \<open>
  Exact arithmetic on float operands: the only failures are a zero denominator and zero
  to a negative power. On integer operands numpy raises for a negative integer exponent
  and wraps large integer powers; with the decay power \<open>1\<close> of every script neither
  occurs, and the claims below that depend on the exponent are stated for that power.
\<close>

definition np_power :: "real \<Rightarrow> int \<Rightarrow> real option" where
  "np_power x k = (if x = 0 \<and> k < 0 then None else Some (x powi k))"

definition np_divide :: "real \<Rightarrow> real \<Rightarrow> real option" where
  "np_divide x y = (if y = 0 then None else Some (x / y))"

subsection \<open>Configuration constants\<close>

record config =
  IS_REPULSIVE :: bool
  FORCE_DECAY_POWER :: int
  FORCE_POSITION_GAIN :: real

text \<open>\<open>direction = -1; if IS_REPULSIVE: direction = 1\<close>\<close>

definition direction :: "'a config_scheme \<Rightarrow> real" where
  "direction cfg = (if IS_REPULSIVE cfg then 1 else - 1)"

subsection \<open>Class Particle, on a store of objects\<close>

text \<open>
  Particles are objects mutated in place and compared by identity
  (\<open>mate_particle == particle\<close> on a class without \<open>__eq__\<close>), so the model keeps a store
  from references to objects.
\<close>

type_synonym ref = nat

record Particle =
  position :: real
  name :: string
  color :: string
  total_force :: real

type_synonym store = "ref \<Rightarrow> Particle"

definition Particle_init :: "real \<Rightarrow> string \<Rightarrow> string \<Rightarrow> Particle" where
  "Particle_init pos nm col = \<lparr>position = pos, name = nm, color = col, total_force = 0\<rparr>"

text \<open>
  The force one particle receives from another, lines 53 to 57 of \<open>compute_force\<close>:
  the value of the local variable \<open>force\<close>.
\<close>

definition force_value :: "real \<Rightarrow> real \<Rightarrow> real \<Rightarrow> int \<Rightarrow> real option" where
  "force_value a b dir FORCE_DECAY =
     (let dx = a - b in
      if \<not> dx = 0 then Option.bind (np_power \<bar>dx\<bar> FORCE_DECAY) (np_divide (dir * sgn dx))
      else Some 0)"

definition compute_force :: "store \<Rightarrow> ref \<Rightarrow> ref \<Rightarrow> real \<Rightarrow> int \<Rightarrow> store option" where
  "compute_force h self mate_particle dir FORCE_DECAY =
     Option.bind (force_value (position (h self)) (position (h mate_particle)) dir FORCE_DECAY)
       (\<lambda>force. Some (h(self := (h self)\<lparr>total_force := total_force (h self) + force\<rparr>)))"

definition move :: "store \<Rightarrow> ref \<Rightarrow> real \<Rightarrow> store" where
  "move h self gain =
     h(self := (h self)\<lparr>position := position (h self) + gain * total_force (h self)\<rparr>)"

subsection \<open>The callback update_graphics of the class-based scripts\<close>

text \<open>
  The module-level names \<open>particle_L\<close>, \<open>particle_R\<close> and \<open>particles\<close> are references into
  the store. The argument \<open>frame\<close> only feeds the time-step label and the plot handles
  are rendering, so the model returns the store and the list \<open>poss\<close>. The label lines
  after the loop, which read \<open>poss[0]\<close> to \<open>poss[4]\<close> (to \<open>poss[1]\<close> in
  \<open>particles_1d_line_segment_04_02\<close>), are rendering as well and need as many free
  particles as the script has labels; they are not part of the model.
\<close>

record world =
  heap :: store
  particle_L :: ref
  particle_R :: ref
  particles :: "ref list"

text \<open>The inner loop \<open>for mate_particle in particles\<close>, lines 94 to 97.\<close>

fun mate_loop :: "'a config_scheme \<Rightarrow> ref \<Rightarrow> ref list \<Rightarrow> store \<Rightarrow> store option" where
  "mate_loop cfg particle [] h = Some h"
| "mate_loop cfg particle (mate_particle # rest) h =
     (if \<not> mate_particle = particle
      then Option.bind
             (compute_force h particle mate_particle (direction cfg) (FORCE_DECAY_POWER cfg))
             (mate_loop cfg particle rest)
      else mate_loop cfg particle rest h)"

text \<open>The body of the outer loop, lines 90 to 100, for one \<open>particle\<close>.\<close>

definition loop_body ::
  "'a config_scheme \<Rightarrow> ref \<Rightarrow> ref \<Rightarrow> ref list \<Rightarrow> ref \<Rightarrow> store \<Rightarrow> store option" where
  "loop_body cfg pL pR ps particle h =
     Option.bind
       (compute_force (h(particle := (h particle)\<lparr>total_force := 0\<rparr>)) particle pL
          (direction cfg) (FORCE_DECAY_POWER cfg))
       (\<lambda>h1. Option.bind
          (compute_force h1 particle pR (direction cfg) (FORCE_DECAY_POWER cfg))
          (\<lambda>h2. Option.bind (mate_loop cfg particle ps h2)
             (\<lambda>h3. Some (move h3 particle (FORCE_POSITION_GAIN cfg)))))"

text \<open>The outer loop \<open>for particle in particles\<close>, appending to \<open>poss\<close>.\<close>

fun particle_loop ::
  "'a config_scheme \<Rightarrow> ref \<Rightarrow> ref \<Rightarrow> ref list \<Rightarrow> ref list \<Rightarrow> store \<times> real list
     \<Rightarrow> (store \<times> real list) option" where
  "particle_loop cfg pL pR ps [] acc = Some acc"
| "particle_loop cfg pL pR ps (particle # rest) (h, poss) =
     Option.bind (loop_body cfg pL pR ps particle h)
       (\<lambda>h'. particle_loop cfg pL pR ps rest (h', poss @ [position (h' particle)]))"

definition update_graphics :: "'a config_scheme \<Rightarrow> world \<Rightarrow> (world \<times> real list) option" where
  "update_graphics cfg w =
     map_option (\<lambda>(h, poss). (w\<lparr>heap := h\<rparr>, poss))
       (particle_loop cfg (particle_L w) (particle_R w) (particles w) (particles w)
          (heap w, []))"

text \<open>\<open>FuncAnimation\<close> calls the callback once per frame: \<open>n\<close> ticks in a row.\<close>

fun ticks :: "'a config_scheme \<Rightarrow> nat \<Rightarrow> world \<Rightarrow> world option" where
  "ticks cfg 0 w = Some w"
| "ticks cfg (Suc n) w =
     Option.bind (update_graphics cfg w) (\<lambda>(w', poss). ticks cfg n w')"

definition positions :: "world \<Rightarrow> real list" where
  "positions w = map (\<lambda>r. position (heap w r)) (particles w)"

text \<open>The constants and the particles of \<open>particles_1d_line_segment_04_02\<close>.\<close>

definition cfg_04_02 :: config where
  "cfg_04_02 = \<lparr>IS_REPULSIVE = True, FORCE_DECAY_POWER = 1, FORCE_POSITION_GAIN = 3 / 100\<rparr>"

definition world_04_02 :: world where
  "world_04_02 =
     \<lparr>heap = (\<lambda>_. Particle_init 0 [] [])
         (0 := Particle_init 0 ''L'' ''k'',
          1 := Particle_init 6 ''R'' ''k'',
          2 := Particle_init 1 ''1'' ''ro'',
          3 := Particle_init 2 ''2'' ''go''),
      particle_L = 0, particle_R = 1, particles = [2, 3]\<rparr>"

text \<open>The constants and the particles of \<open>particles_1d_line_segment_n_02\<close>.\<close>

definition cfg_n_02 :: config where
  "cfg_n_02 = \<lparr>IS_REPULSIVE = True, FORCE_DECAY_POWER = 1, FORCE_POSITION_GAIN = 3 / 100\<rparr>"

definition world_n_02 :: world where
  "world_n_02 =
     \<lparr>heap = (\<lambda>_. Particle_init 0 [] [])
         (0 := Particle_init 0 ''L'' ''k'',
          1 := Particle_init 6 ''R'' ''k'',
          2 := Particle_init 1 ''1'' ''ro'',
          3 := Particle_init (5 / 4) ''2'' ''go'',
          4 := Particle_init (3 / 2) ''3'' ''bo'',
          5 := Particle_init (7 / 4) ''4'' ''co'',
          6 := Particle_init 2 ''5'' ''yo''),
      particle_L = 0, particle_R = 1, particles = [2, 3, 4, 5, 6]\<rparr>"

subsection \<open>The script with one free particle, particles_1d_line_segment_03_02.py\<close>

text \<open>
  The state is the global \<open>particle_free_position\<close>; the two boundary positions are
  module constants, taken here as fields of the configuration.
\<close>

record config_03 = config +
  PARTICLE_LEFT_POSITION :: real
  PARTICLE_RIGHT_POSITION :: real

text \<open>
  Lines 61 to 73: the pair \<open>(force_left_particle, force_right_particle)\<close>. Both branches
  are the expression of \<open>compute_force\<close>, on \<open>particle_free_position\<close> and a boundary.
\<close>

definition forces_03_02 :: "config_03 \<Rightarrow> real \<Rightarrow> (real \<times> real) option" where
  "forces_03_02 cfg particle_free_position =
     Option.bind
       (force_value particle_free_position (PARTICLE_LEFT_POSITION cfg)
          (direction cfg) (FORCE_DECAY_POWER cfg))
       (\<lambda>force_left_particle. Option.bind
          (force_value particle_free_position (PARTICLE_RIGHT_POSITION cfg)
             (direction cfg) (FORCE_DECAY_POWER cfg))
          (\<lambda>force_right_particle. Some (force_left_particle, force_right_particle)))"

text \<open>Lines 75 and 76: the new value of \<open>particle_free_position\<close>.\<close>

definition update_graphics_03_02 :: "config_03 \<Rightarrow> real \<Rightarrow> real option" where
  "update_graphics_03_02 cfg particle_free_position =
     map_option
       (\<lambda>(force_left_particle, force_right_particle).
          particle_free_position
            + FORCE_POSITION_GAIN cfg * (force_left_particle + force_right_particle))
       (forces_03_02 cfg particle_free_position)"

fun ticks_03_02 :: "config_03 \<Rightarrow> nat \<Rightarrow> real \<Rightarrow> real option" where
  "ticks_03_02 cfg 0 x = Some x"
| "ticks_03_02 cfg (Suc n) x = Option.bind (update_graphics_03_02 cfg x) (ticks_03_02 cfg n)"

definition cfg_03_02 :: config_03 where
  "cfg_03_02 =
     \<lparr>IS_REPULSIVE = True, FORCE_DECAY_POWER = 1, FORCE_POSITION_GAIN = 1 / 10,
      PARTICLE_LEFT_POSITION = 0, PARTICLE_RIGHT_POSITION = 6\<rparr>"

text \<open>The midpoint of the two boundaries.\<close>

definition midpoint :: "config_03 \<Rightarrow> real" where
  "midpoint cfg = (PARTICLE_LEFT_POSITION cfg + PARTICLE_RIGHT_POSITION cfg) / 2"

text \<open>
  The script as shipped: the free particle starts at \<open>particle_free_position = 1\<close> and
  the callback runs once per frame.
\<close>

definition trajectory_03_02 :: "nat \<Rightarrow> real option" where
  "trajectory_03_02 n = ticks_03_02 cfg_03_02 n 1"

subsection \<open>The earlier revision, particles_1d_line_segment_03_02.py.py\<close>

text \<open>
  Here \<open>IS_REPULSIVE\<close> is an integer (\<open>1: Repulsive force | 0: Attractive force\<close>) used as
  an exponent of \<open>np.sign(dx)\<close>, and there is no \<open>direction\<close>.
\<close>

record config_rev0 =
  IS_REPULSIVE_int :: int
  FORCE_DECAY_POWER_rev0 :: int
  FORCE_POSITION_GAIN_rev0 :: real
  PARTICLE_LEFT_POSITION_rev0 :: real
  PARTICLE_RIGHT_POSITION_rev0 :: real

text \<open>Lines 53 to 58 (and 60 to 65): the force from one boundary at position \<open>b\<close>.\<close>

definition force_rev0 :: "config_rev0 \<Rightarrow> real \<Rightarrow> real \<Rightarrow> real option" where
  "force_rev0 cfg particle_free_position b =
     (let dx = particle_free_position - b in
      if \<not> dx = 0
      then Option.bind (np_power (sgn dx) (IS_REPULSIVE_int cfg))
             (\<lambda>s. Option.bind (np_power \<bar>dx\<bar> (FORCE_DECAY_POWER_rev0 cfg)) (np_divide s))
      else Some 0)"

definition update_graphics_rev0 :: "config_rev0 \<Rightarrow> real \<Rightarrow> real option" where
  "update_graphics_rev0 cfg particle_free_position =
     Option.bind (force_rev0 cfg particle_free_position (PARTICLE_LEFT_POSITION_rev0 cfg))
       (\<lambda>force_left_particle. Option.bind
          (force_rev0 cfg particle_free_position (PARTICLE_RIGHT_POSITION_rev0 cfg))
          (\<lambda>force_right_particle. Some (particle_free_position
             + FORCE_POSITION_GAIN_rev0 cfg * (force_left_particle + force_right_particle))))"

definition cfg_rev0 :: config_rev0 where
  "cfg_rev0 =
     \<lparr>IS_REPULSIVE_int = 1, FORCE_DECAY_POWER_rev0 = 1, FORCE_POSITION_GAIN_rev0 = 1 / 10,
      PARTICLE_LEFT_POSITION_rev0 = 0, PARTICLE_RIGHT_POSITION_rev0 = 6\<rparr>"

subsection \<open>The force law and the synchronous step, in the words of the specification\<close>

text \<open>
  The contribution of a particle at \<open>b\<close> to the force on a particle at \<open>a\<close>:
  \<open>0\<close> when \<open>dx = 0\<close>, otherwise \<open>direction * sign(dx) / |dx| ^ decay_power\<close>.
\<close>

definition spec_contribution :: "real \<Rightarrow> real \<Rightarrow> real \<Rightarrow> int \<Rightarrow> real" where
  "spec_contribution a b dir decay_power =
     (if a - b = 0 then 0 else dir * sgn (a - b) / (\<bar>a - b\<bar> powi decay_power))"

text \<open>
  The sum of the contributions to \<open>p\<close> of both boundaries and of every other free
  particle, at the positions of the store \<open>h\<close>, added up in the order of the code.
\<close>

definition net_force :: "'a config_scheme \<Rightarrow> ref \<Rightarrow> ref \<Rightarrow> ref list \<Rightarrow> store \<Rightarrow> ref \<Rightarrow> real" where
  "net_force cfg pL pR ps h p =
     foldl (\<lambda>acc q. acc + spec_contribution (position (h p)) (position (h q))
                          (direction cfg) (FORCE_DECAY_POWER cfg))
       0 (pL # pR # filter (\<lambda>q. q \<noteq> p) ps)"

text \<open>
  The synchronous reading of the specification: the force on \<open>p\<close> computed from the
  positions the world holds at the start of the tick.
\<close>

definition synchronous_force :: "'a config_scheme \<Rightarrow> world \<Rightarrow> ref \<Rightarrow> real" where
  "synchronous_force cfg w p =
     net_force cfg (particle_L w) (particle_R w) (particles w) (heap w) p"

text \<open>What the code leaves in \<open>total_force\<close> of \<open>p\<close> after one tick.\<close>

definition force_after_tick :: "'a config_scheme \<Rightarrow> world \<Rightarrow> ref \<Rightarrow> real option" where
  "force_after_tick cfg w p =
     map_option (\<lambda>(w', poss). total_force (heap w' p)) (update_graphics cfg w)"

text \<open>
  The store the \<open>i\<close>-th free particle reads during a tick from \<open>h\<close> to \<open>h'\<close>: the free
  particles before it in the list as the tick leaves them, everything else as the tick
  found it.
\<close>

definition store_seen_by :: "store \<Rightarrow> store \<Rightarrow> ref list \<Rightarrow> nat \<Rightarrow> store" where
  "store_seen_by h h' ps i = (\<lambda>r. if r \<in> set (take i ps) then h' r else h r)"

subsection \<open>The variant that does not skip the particle itself\<close>

text \<open>
  The same callback with the test \<open>if not mate_particle == particle\<close> removed from the
  inner loop.
\<close>

fun mate_loop_with_self :: "'a config_scheme \<Rightarrow> ref \<Rightarrow> ref list \<Rightarrow> store \<Rightarrow> store option" where
  "mate_loop_with_self cfg particle [] h = Some h"
| "mate_loop_with_self cfg particle (mate_particle # rest) h =
     Option.bind
       (compute_force h particle mate_particle (direction cfg) (FORCE_DECAY_POWER cfg))
       (mate_loop_with_self cfg particle rest)"

definition loop_body_with_self ::
  "'a config_scheme \<Rightarrow> ref \<Rightarrow> ref \<Rightarrow> ref list \<Rightarrow> ref \<Rightarrow> store \<Rightarrow> store option" where
  "loop_body_with_self cfg pL pR ps particle h =
     Option.bind
       (compute_force (h(particle := (h particle)\<lparr>total_force := 0\<rparr>)) particle pL
          (direction cfg) (FORCE_DECAY_POWER cfg))
       (\<lambda>h1. Option.bind
          (compute_force h1 particle pR (direction cfg) (FORCE_DECAY_POWER cfg))
          (\<lambda>h2. Option.bind (mate_loop_with_self cfg particle ps h2)
             (\<lambda>h3. Some (move h3 particle (FORCE_POSITION_GAIN cfg)))))"

fun particle_loop_with_self ::
  "'a config_scheme \<Rightarrow> ref \<Rightarrow> ref \<Rightarrow> ref list \<Rightarrow> ref list \<Rightarrow> store \<times> real list
     \<Rightarrow> (store \<times> real list) option" where
  "particle_loop_with_self cfg pL pR ps [] acc = Some acc"
| "particle_loop_with_self cfg pL pR ps (particle # rest) (h, poss) =
     Option.bind (loop_body_with_self cfg pL pR ps particle h)
       (\<lambda>h'. particle_loop_with_self cfg pL pR ps rest (h', poss @ [position (h' particle)]))"

definition update_graphics_with_self ::
  "'a config_scheme \<Rightarrow> world \<Rightarrow> (world \<times> real list) option" where
  "update_graphics_with_self cfg w =
     map_option (\<lambda>(h, poss). (w\<lparr>heap := h\<rparr>, poss))
       (particle_loop_with_self cfg (particle_L w) (particle_R w) (particles w) (particles w)
          (heap w, []))"

subsection \<open>Runs that start from the same positions\<close>

text \<open>
  Two worlds with the same references that agree on the position of both boundaries and
  of every free particle. Names, colours, leftover forces and unrelated objects may
  differ.
\<close>

definition same_positions :: "world \<Rightarrow> world \<Rightarrow> bool" where
  "same_positions w1 w2 \<longleftrightarrow>
     particle_L w1 = particle_L w2 \<and> particle_R w1 = particle_R w2
     \<and> particles w1 = particles w2
     \<and> list_all (\<lambda>r. position (heap w1 r) = position (heap w2 r))
          (particle_L w1 # particle_R w1 # particles w1)"

text \<open>
  The particles of \<open>particles_1d_line_segment_04_02\<close> at the same positions, with other
  names and colours and a force left over in each free particle.
\<close>

definition world_04_02_relabelled :: world where
  "world_04_02_relabelled =
     \<lparr>heap = (\<lambda>_. Particle_init 0 [] [])
         (0 := Particle_init 0 ''left'' ''b'',
          1 := Particle_init 6 ''right'' ''b'',
          2 := (Particle_init 1 ''a'' ''yo'')\<lparr>total_force := 7\<rparr>,
          3 := (Particle_init 2 ''b'' ''co'')\<lparr>total_force := - 3\<rparr>),
      particle_L = 0, particle_R = 1, particles = [2, 3]\<rparr>"

subsection \<open>Reflection about the midpoint of the segment\<close>

text \<open>The mirror image of a coordinate about the midpoint of the two boundaries.\<close>

definition mirror :: "world \<Rightarrow> real \<Rightarrow> real" where
  "mirror w x =
     position (heap w (particle_L w)) + position (heap w (particle_R w)) - x"

text \<open>The world with every free particle at its mirror image, boundaries in place.\<close>

definition reflect_free :: "world \<Rightarrow> world" where
  "reflect_free w =
     w\<lparr>heap := (\<lambda>r. if r \<in> set (particles w)
                     then (heap w r)\<lparr>position := mirror w (position (heap w r))\<rparr>
                     else heap w r)\<rparr>"

text \<open>A list of coordinates that is its own mirror image about \<open>c / 2\<close>, as a multiset.\<close>

definition mirror_symmetric :: "real \<Rightarrow> real list \<Rightarrow> bool" where
  "mirror_symmetric c xs \<longleftrightarrow> sort (map (\<lambda>x. c - x) xs) = sort xs"

definition symmetric_after_tick :: "'a config_scheme \<Rightarrow> world \<Rightarrow> bool option" where
  "symmetric_after_tick cfg w =
     map_option (\<lambda>(w', poss). mirror_symmetric (mirror w 0) poss) (update_graphics cfg w)"

text \<open>
  Two free particles placed symmetrically at \<open>2\<close> and \<open>4\<close> between the boundaries
  \<open>0\<close> and \<open>6\<close>, created as the scripts create theirs.
\<close>

definition world_symmetric :: world where
  "world_symmetric =
     \<lparr>heap = (\<lambda>_. Particle_init 0 [] [])
         (0 := Particle_init 0 ''L'' ''k'',
          1 := Particle_init 6 ''R'' ''k'',
          2 := Particle_init 2 ''1'' ''ro'',
          3 := Particle_init 4 ''2'' ''go''),
      particle_L = 0, particle_R = 1, particles = [2, 3]\<rparr>"

subsection \<open>Double arithmetic\<close>

text \<open>
  Rounding to the nearest integer, ties to the even one.
\<close>

definition round_half_even :: "real \<Rightarrow> int" where
  "round_half_even r =
     (let n = \<lfloor>r\<rfloor>; d = r - of_int n
      in if d < 1 / 2 then n else if 1 / 2 < d then n + 1 else if even n then n else n + 1)"

text \<open>
  A nonzero real \<open>x\<close> lies in the binade \<open>2 ^ e \<le> |x| < 2 ^ (e + 1)\<close> with \<open>e = binade x\<close>.
  Doubles carry 53 significant bits, and no bit below \<open>2 ^ (-1074)\<close>: around \<open>x\<close> they
  are the multiples of \<open>quantum x\<close>.
\<close>

definition binade :: "real \<Rightarrow> int" where
  "binade x = \<lfloor>log 2 \<bar>x\<bar>\<rfloor>"

definition quantum :: "real \<Rightarrow> real" where
  "quantum x = 2 powi max (binade x - 52) (- 1074)"

text \<open>
  The double nearest to a real (round to nearest, ties to even), subnormal results
  included. \<open>None\<close> stands for a result that is not a finite double: the rounded value
  is beyond the largest double (an infinity) or, after an infinity, not a number. A
  computation that has met \<open>None\<close> stays \<open>None\<close>.
\<close>

definition to_double :: "real \<Rightarrow> real option" where
  "to_double x =
     (if x = 0 then Some 0
      else let y = of_int (round_half_even (x / quantum x)) * quantum x
           in if \<bar>y\<bar> < 2 ^ 1024 then Some y else None)"

definition is_double :: "real \<Rightarrow> bool" where
  "is_double x \<longleftrightarrow> to_double x = Some x"

text \<open>
  The operations of the scripts on doubles. \<open>fdiv\<close> by zero is an infinity or not a
  number in numpy. \<open>np.sign\<close> and \<open>np.abs\<close> are exact. For the exponent \<open>1\<close> the power
  returns its argument; for other exponents the library power is taken to be correctly
  rounded.
\<close>

definition fadd :: "real \<Rightarrow> real \<Rightarrow> real option" where
  "fadd a b = to_double (a + b)"

definition fsub :: "real \<Rightarrow> real \<Rightarrow> real option" where
  "fsub a b = to_double (a - b)"

definition fmul :: "real \<Rightarrow> real \<Rightarrow> real option" where
  "fmul a b = to_double (a * b)"

definition fdiv :: "real \<Rightarrow> real \<Rightarrow> real option" where
  "fdiv a b = (if b = 0 then None else to_double (a / b))"

definition fpow :: "real \<Rightarrow> int \<Rightarrow> real option" where
  "fpow x k = (if x = 0 \<and> k < 0 then None else to_double (x powi k))"

text \<open>
  Lines 53 to 57 of \<open>compute_force\<close>, and each of the two force computations of
  \<open>particles_1d_line_segment_03_02.py\<close>, on doubles: the value of \<open>force\<close>. A Python
  integer operand is the double of the same value.
\<close>

definition force_value_double :: "real \<Rightarrow> real \<Rightarrow> real \<Rightarrow> int \<Rightarrow> real option" where
  "force_value_double a b dir FORCE_DECAY =
     Option.bind (fsub a b)
       (\<lambda>dx. if \<not> dx = 0
             then Option.bind (fmul dir (sgn dx))
                    (\<lambda>s. Option.bind (fpow \<bar>dx\<bar> FORCE_DECAY) (fdiv s))
             else Some 0)"

text \<open>
  The callback of \<open>particles_1d_line_segment_03_02.py\<close> on doubles: lines 61 to 73,
  then lines 75 and 76 with their additions and their product rounded in turn.
\<close>

definition forces_03_02_double :: "config_03 \<Rightarrow> real \<Rightarrow> (real \<times> real) option" where
  "forces_03_02_double cfg particle_free_position =
     Option.bind
       (force_value_double particle_free_position (PARTICLE_LEFT_POSITION cfg)
          (direction cfg) (FORCE_DECAY_POWER cfg))
       (\<lambda>force_left_particle. Option.bind
          (force_value_double particle_free_position (PARTICLE_RIGHT_POSITION cfg)
             (direction cfg) (FORCE_DECAY_POWER cfg))
          (\<lambda>force_right_particle. Some (force_left_particle, force_right_particle)))"

definition update_graphics_03_02_double :: "config_03 \<Rightarrow> real \<Rightarrow> real option" where
  "update_graphics_03_02_double cfg particle_free_position =
     Option.bind (forces_03_02_double cfg particle_free_position)
       (\<lambda>(force_left_particle, force_right_particle).
          Option.bind (fadd force_left_particle force_right_particle)
            (\<lambda>s. Option.bind (fmul (FORCE_POSITION_GAIN cfg) s)
               (fadd particle_free_position)))"

fun ticks_03_02_double :: "config_03 \<Rightarrow> nat \<Rightarrow> real \<Rightarrow> real option" where
  "ticks_03_02_double cfg 0 x = Some x"
| "ticks_03_02_double cfg (Suc n) x =
     Option.bind (update_graphics_03_02_double cfg x) (ticks_03_02_double cfg n)"

text \<open>
  The constants of \<open>particles_1d_line_segment_03_02.py\<close> as doubles: the gain \<open>0.1\<close> is
  the double \<open>3602879701896397 / 2 ^ 55\<close>.
\<close>

definition cfg_03_02_double :: config_03 where
  "cfg_03_02_double =
     \<lparr>IS_REPULSIVE = True, FORCE_DECAY_POWER = 1,
      FORCE_POSITION_GAIN = 3602879701896397 / 2 ^ 55,
      PARTICLE_LEFT_POSITION = 0, PARTICLE_RIGHT_POSITION = 6\<rparr>"

text \<open>
  The same script with the boundaries set to the doubles \<open>0.1\<close> and \<open>0.3\<close>, and the
  midpoint as Python computes \<open>(L + R) / 2\<close>.
\<close>

definition cfg_tenths :: config_03 where
  "cfg_tenths =
     \<lparr>IS_REPULSIVE = True, FORCE_DECAY_POWER = 1,
      FORCE_POSITION_GAIN = 3602879701896397 / 2 ^ 55,
      PARTICLE_LEFT_POSITION = 3602879701896397 / 2 ^ 55,
      PARTICLE_RIGHT_POSITION = 5404319552844595 / 2 ^ 54\<rparr>"

definition midpoint_double :: "config_03 \<Rightarrow> real option" where
  "midpoint_double cfg =
     Option.bind (fadd (PARTICLE_LEFT_POSITION cfg) (PARTICLE_RIGHT_POSITION cfg))
       (\<lambda>s. fdiv s 2)"

text \<open>
  The smallest positive double, and the script with the boundaries \<open>0\<close> and twice
  that.
\<close>

definition min_subnormal :: real where
  "min_subnormal = 2 powi (- 1074)"

definition cfg_tiny :: config_03 where
  "cfg_tiny =
     \<lparr>IS_REPULSIVE = True, FORCE_DECAY_POWER = 1,
      FORCE_POSITION_GAIN = 3602879701896397 / 2 ^ 55,
      PARTICLE_LEFT_POSITION = 0, PARTICLE_RIGHT_POSITION = 2 * min_subnormal\<rparr>"

text \<open>
  A separation whose square is below every positive double.
\<close>

definition two_to_minus_600 :: real where
  "two_to_minus_600 = 2 powi (- 600)"

subsection \<open>Closed forms of the loops\<close>

text \<open>
  The loops never fail, so each has a total closed form; the lemmas of the next section
  connect them to the code above.
\<close>

text \<open>One tick of \<open>particles_1d_line_segment_03_02.py\<close> with its constants.\<close>

definition step_03_02 :: "real \<Rightarrow> real" where
  "step_03_02 x = x + 1 / 10 * (spec_contribution x 0 1 1 + spec_contribution x 6 1 1)"

definition agree :: "ref set \<Rightarrow> store \<Rightarrow> store \<Rightarrow> bool" where
  "agree S h1 h2 \<longleftrightarrow> (\<forall>r\<in>S. position (h1 r) = position (h2 r))"

definition mirrored :: "real \<Rightarrow> ref set \<Rightarrow> store \<Rightarrow> store \<Rightarrow> bool" where
  "mirrored c S h h' \<longleftrightarrow>
     (\<forall>r\<in>S. position (h' r) = c - position (h r))
     \<and> (\<forall>r. r \<notin> S \<longrightarrow> position (h' r) = position (h r))"

definition add_force :: "store \<Rightarrow> ref \<Rightarrow> real \<Rightarrow> store" where
  "add_force h p f = h(p := (h p)\<lparr>total_force := total_force (h p) + f\<rparr>)"

definition step_particle ::
  "'a config_scheme \<Rightarrow> ref \<Rightarrow> ref \<Rightarrow> ref list \<Rightarrow> ref \<Rightarrow> store \<Rightarrow> store" where
  "step_particle cfg pL pR ps p h =
     h(p := (h p)\<lparr>position := position (h p)
                       + FORCE_POSITION_GAIN cfg * net_force cfg pL pR ps h p,
                  total_force := net_force cfg pL pR ps h p\<rparr>)"

definition sweep ::
  "'a config_scheme \<Rightarrow> ref \<Rightarrow> ref \<Rightarrow> ref list \<Rightarrow> ref list \<Rightarrow> store \<Rightarrow> store" where
  "sweep cfg pL pR ps rest h = fold (step_particle cfg pL pR ps) rest h"

fun sweep_poss ::
  "'a config_scheme \<Rightarrow> ref \<Rightarrow> ref \<Rightarrow> ref list \<Rightarrow> ref list \<Rightarrow> store \<Rightarrow> real list" where
  "sweep_poss cfg pL pR ps [] h = []"
| "sweep_poss cfg pL pR ps (p # rest) h =
     position (step_particle cfg pL pR ps p h p)
       # sweep_poss cfg pL pR ps rest (step_particle cfg pL pR ps p h)"

section \<open>Properties\<close>

subsection \<open>The loops never fail\<close>

lemma force_value_total: "force_value a b d k = Some (spec_contribution a b d k)"
  by (simp add: force_value_def spec_contribution_def np_power_def np_divide_def Let_def)

lemma compute_force_total:
  "compute_force h p q d k =
     Some (h(p := (h p)\<lparr>total_force := total_force (h p)
              + spec_contribution (position (h p)) (position (h q)) d k\<rparr>))"
  by (simp add: compute_force_def force_value_total)

lemma add_force_position [simp]: "position (add_force h p f r) = position (h r)"
  by (simp add: add_force_def)

lemma add_force_add_force [simp]: "add_force (add_force h p f) p g = add_force h p (f + g)"
  by (simp add: add_force_def add.assoc)

lemma foldl_add_shift:
  "foldl (\<lambda>acc q. acc + F q) (a + b) qs = a + foldl (\<lambda>acc q. acc + F q) (b::real) qs"
  by (induction qs arbitrary: b) (simp_all add: add.assoc)

lemma mate_loop_total:
  "mate_loop cfg p qs h =
     Some (add_force h p
       (foldl (\<lambda>acc q. acc + spec_contribution (position (h p)) (position (h q))
                            (direction cfg) (FORCE_DECAY_POWER cfg))
          0 (filter (\<lambda>q. q \<noteq> p) qs)))"
proof (induction qs arbitrary: h)
  case Nil
  show ?case by (simp add: add_force_def)
next
  case (Cons q qs)
  show ?case
  proof (cases "q = p")
    case True
    then show ?thesis using Cons.IH [of h] by simp
  next
    case False
    let ?c = "spec_contribution (position (h p)) (position (h q))
                (direction cfg) (FORCE_DECAY_POWER cfg)"
    have "mate_loop cfg p (q # qs) h = mate_loop cfg p qs (add_force h p ?c)"
      using False by (simp add: compute_force_total add_force_def)
    also have "\<dots> = Some (add_force h p (?c +
        foldl (\<lambda>acc q. acc + spec_contribution (position (h p)) (position (h q))
                            (direction cfg) (FORCE_DECAY_POWER cfg))
          0 (filter (\<lambda>q. q \<noteq> p) qs)))"
      by (simp add: Cons.IH)
    finally show ?thesis
      using False foldl_add_shift [of _ ?c 0 "filter (\<lambda>q. q \<noteq> p) qs"] by simp
  qed
qed

lemma loop_body_total: "loop_body cfg pL pR ps p h = Some (step_particle cfg pL pR ps p h)"
proof -
  let ?c = "\<lambda>q. spec_contribution (position (h p)) (position (h q))
                  (direction cfg) (FORCE_DECAY_POWER cfg)"
  let ?h0 = "h(p := (h p)\<lparr>total_force := 0\<rparr>)"
  let ?rest = "filter (\<lambda>q. q \<noteq> p) ps"
  have "loop_body cfg pL pR ps p h =
      Option.bind (mate_loop cfg p ps (add_force ?h0 p (?c pL + ?c pR)))
        (\<lambda>h3. Some (move h3 p (FORCE_POSITION_GAIN cfg)))"
    unfolding loop_body_def compute_force_total
    by (simp add: add_force_def)
  also have "\<dots> = Some (move (add_force ?h0 p
        (?c pL + ?c pR + foldl (\<lambda>acc q. acc + ?c q) 0 ?rest)) p (FORCE_POSITION_GAIN cfg))"
  proof -
    have "(\<lambda>acc q. acc + spec_contribution (position (h p))
             (position (if q = p then (h p)\<lparr>total_force := 0\<rparr> else h q))
             (direction cfg) (FORCE_DECAY_POWER cfg)) = (\<lambda>acc q. acc + ?c q)"
      by (auto simp: fun_eq_iff)
    then show ?thesis by (simp add: mate_loop_total)
  qed
  also have "?c pL + ?c pR + foldl (\<lambda>acc q. acc + ?c q) 0 ?rest = net_force cfg pL pR ps h p"
    using foldl_add_shift [of ?c "?c pL + ?c pR" 0 ?rest]
    by (simp add: net_force_def)
  finally show ?thesis
    by (simp add: step_particle_def move_def add_force_def fun_eq_iff)
qed

lemma particle_loop_total:
  "particle_loop cfg pL pR ps rest (h, poss) =
     Some (sweep cfg pL pR ps rest h, poss @ sweep_poss cfg pL pR ps rest h)"
  by (induction rest arbitrary: h poss) (simp_all add: sweep_def loop_body_total)

lemma update_graphics_total:
  "update_graphics cfg w =
     Some (w\<lparr>heap := sweep cfg (particle_L w) (particle_R w) (particles w) (particles w) (heap w)\<rparr>,
           sweep_poss cfg (particle_L w) (particle_R w) (particles w) (particles w) (heap w))"
  by (simp add: update_graphics_def particle_loop_total)

lemma step_particle_other: "r \<noteq> p \<Longrightarrow> step_particle cfg pL pR ps p h r = h r"
  by (simp add: step_particle_def)

lemma sweep_other: "r \<notin> set rest \<Longrightarrow> sweep cfg pL pR ps rest h r = h r"
  by (induction rest arbitrary: h) (auto simp: sweep_def step_particle_other)

lemma sweep_append:
  "sweep cfg pL pR ps (xs @ ys) h = sweep cfg pL pR ps ys (sweep cfg pL pR ps xs h)"
  by (simp add: sweep_def)

lemma sweep_Cons:
  "sweep cfg pL pR ps (p # rest) h = sweep cfg pL pR ps rest (step_particle cfg pL pR ps p h)"
  by (simp add: sweep_def)

lemma sweep_poss_final:
  "distinct rest \<Longrightarrow>
     sweep_poss cfg pL pR ps rest h = map (\<lambda>r. position (sweep cfg pL pR ps rest h r)) rest"
proof (induction rest arbitrary: h)
  case Nil
  show ?case by simp
next
  case (Cons p rest)
  then have "p \<notin> set rest" "distinct rest" by simp_all
  then show ?case
    using Cons.IH [of "step_particle cfg pL pR ps p h"]
    by (simp add: sweep_Cons sweep_other)
qed

lemma ticks_total: "\<exists>w'. ticks cfg n w = Some w' \<and> particles w' = particles w
    \<and> particle_L w' = particle_L w \<and> particle_R w' = particle_R w"
proof (induction n arbitrary: w)
  case 0
  show ?case by simp
next
  case (Suc n)
  let ?w1 = "w\<lparr>heap := sweep cfg (particle_L w) (particle_R w) (particles w) (particles w) (heap w)\<rparr>"
  show ?case using Suc.IH [of ?w1] by (simp add: update_graphics_total)
qed

lemma forces_03_02_total:
  "forces_03_02 cfg x =
     Some (spec_contribution x (PARTICLE_LEFT_POSITION cfg) (direction cfg) (FORCE_DECAY_POWER cfg),
           spec_contribution x (PARTICLE_RIGHT_POSITION cfg) (direction cfg) (FORCE_DECAY_POWER cfg))"
  by (simp add: forces_03_02_def force_value_total)

lemma update_graphics_03_02_total:
  "update_graphics_03_02 cfg x =
     Some (x + FORCE_POSITION_GAIN cfg *
       (spec_contribution x (PARTICLE_LEFT_POSITION cfg) (direction cfg) (FORCE_DECAY_POWER cfg)
        + spec_contribution x (PARTICLE_RIGHT_POSITION cfg) (direction cfg) (FORCE_DECAY_POWER cfg)))"
  by (simp add: update_graphics_03_02_def forces_03_02_total)

lemma ticks_03_02_total: "\<exists>y. ticks_03_02 cfg n x = Some y"
  by (induction n arbitrary: x) (simp_all add: update_graphics_03_02_total)

subsection \<open>No zero denominator in exact arithmetic\<close>

text \<open>
  Over exact reals the guard \<open>dx == 0\<close> is all that is needed: the force, the tick and
  any number of ticks return a value. What holds of the doubles of the code is the
  subject of the subsections on double arithmetic.
\<close>

lemma total_in_exact_arithmetic:
  "(\<exists>f. force_value a b dir k = Some f)
   \<and> force_value a a dir k = Some 0
   \<and> (\<exists>h'. compute_force h p q dir k = Some h')
   \<and> (\<exists>r. update_graphics cfg w = Some r)
   \<and> (\<exists>w'. ticks cfg n w = Some w')
   \<and> (\<exists>fs. forces_03_02 cfg3 x = Some fs)
   \<and> (\<exists>y. update_graphics_03_02 cfg3 x = Some y)
   \<and> (\<exists>y. ticks_03_02 cfg3 n x = Some y)"
proof -
  have "force_value a a dir k = Some 0"
    by (simp add: force_value_total spec_contribution_def)
  moreover have "\<exists>w'. ticks cfg n w = Some w'"
    using ticks_total [of cfg n w] by blast
  ultimately show ?thesis
    by (simp add: force_value_total compute_force_total update_graphics_total
        forces_03_02_total update_graphics_03_02_total ticks_03_02_total)
qed

subsection \<open>Skipping the particle itself\<close>

lemma add_force_zero: "add_force h p 0 = h"
  by (simp add: add_force_def)

lemma compute_force_add:
  "compute_force h p q d k =
     Some (add_force h p (spec_contribution (position (h p)) (position (h q)) d k))"
  by (simp add: compute_force_total add_force_def)

lemma spec_contribution_same: "spec_contribution a a d k = 0"
  by (simp add: spec_contribution_def)

lemma mate_loop_with_self_eq: "mate_loop_with_self cfg p qs h = mate_loop cfg p qs h"
  by (induction qs arbitrary: h)
     (simp_all add: compute_force_add spec_contribution_same add_force_zero)

lemma loop_body_with_self_eq:
  "loop_body_with_self cfg pL pR ps p h = loop_body cfg pL pR ps p h"
  by (simp add: loop_body_with_self_def loop_body_def mate_loop_with_self_eq)

lemma particle_loop_with_self_eq:
  "particle_loop_with_self cfg pL pR ps rest acc = particle_loop cfg pL pR ps rest acc"
  by (induction cfg pL pR ps rest acc rule: particle_loop.induct)
     (simp_all add: loop_body_with_self_eq loop_body_total)

text \<open>
  Claim C10. Excluding a particle from its own force accumulation is redundant: the tick
  equals the variant whose inner loop also calls \<open>compute_force\<close> of the particle against
  itself, because that call finds \<open>dx = 0\<close>, adds \<open>0\<close> and leaves the store as it was.
\<close>

theorem self_exclusion_redundant:
  "update_graphics_with_self cfg w = update_graphics cfg w
   \<and> mate_loop_with_self cfg p qs h = mate_loop cfg p qs h
   \<and> compute_force h p p dir k = Some h"
  by (simp add: update_graphics_with_self_def update_graphics_def particle_loop_with_self_eq
      mate_loop_with_self_eq compute_force_add spec_contribution_same add_force_zero)

subsection \<open>Fixed particles\<close>

lemma ticks_frame:
  "\<exists>w'. ticks cfg n w = Some w' \<and> particles w' = particles w
     \<and> particle_L w' = particle_L w \<and> particle_R w' = particle_R w
     \<and> (\<forall>r. r \<notin> set (particles w) \<longrightarrow> heap w' r = heap w r)"
proof (induction n arbitrary: w)
  case 0
  show ?case by simp
next
  case (Suc n)
  let ?w1 = "w\<lparr>heap := sweep cfg (particle_L w) (particle_R w) (particles w) (particles w) (heap w)\<rparr>"
  show ?case using Suc.IH [of ?w1] by (auto simp: update_graphics_total sweep_other)
qed

text \<open>
  Claim C5. A tick changes no object outside the list \<open>particles\<close>. The two boundary
  particles are not in that list (as in every script), so neither their position nor
  anything else of them changes, in one tick and in any number of ticks; only free
  particles are updated.
\<close>

theorem fixed_particles_unchanged:
  assumes "particle_L w \<notin> set (particles w)" and "particle_R w \<notin> set (particles w)"
  shows "(\<exists>w' poss. update_graphics cfg w = Some (w', poss)
            \<and> heap w' (particle_L w) = heap w (particle_L w)
            \<and> heap w' (particle_R w) = heap w (particle_R w)
            \<and> particle_L w' = particle_L w \<and> particle_R w' = particle_R w
            \<and> (\<forall>r. r \<notin> set (particles w) \<longrightarrow> heap w' r = heap w r))
       \<and> (\<exists>w'. ticks cfg n w = Some w'
            \<and> heap w' (particle_L w) = heap w (particle_L w)
            \<and> heap w' (particle_R w) = heap w (particle_R w)
            \<and> particle_L w' = particle_L w \<and> particle_R w' = particle_R w
            \<and> (\<forall>r. r \<notin> set (particles w) \<longrightarrow> heap w' r = heap w r))"
proof -
  have one: "\<exists>w' poss. update_graphics cfg w = Some (w', poss)
            \<and> heap w' (particle_L w) = heap w (particle_L w)
            \<and> heap w' (particle_R w) = heap w (particle_R w)
            \<and> particle_L w' = particle_L w \<and> particle_R w' = particle_R w
            \<and> (\<forall>r. r \<notin> set (particles w) \<longrightarrow> heap w' r = heap w r)"
    using assms by (simp add: update_graphics_total sweep_other)
  obtain w' where "ticks cfg n w = Some w'" "particle_L w' = particle_L w"
      "particle_R w' = particle_R w" "\<forall>r. r \<notin> set (particles w) \<longrightarrow> heap w' r = heap w r"
    using ticks_frame [of cfg n w] by blast
  then show ?thesis using one assms by simp
qed

text \<open>
  The theorem at the particles of \<open>particles_1d_line_segment_n_02\<close>, after the 300 frames
  of its animation.
\<close>

theorem fixed_particles_unchanged_witness:
  "particle_L world_n_02 \<notin> set (particles world_n_02)
   \<and> particle_R world_n_02 \<notin> set (particles world_n_02)
   \<and> (\<exists>w'. ticks cfg_n_02 300 world_n_02 = Some w'
        \<and> position (heap w' (particle_L world_n_02)) = 0
        \<and> position (heap w' (particle_R world_n_02)) = 6)"
proof -
  have a: "particle_L world_n_02 \<notin> set (particles world_n_02)"
    and b: "particle_R world_n_02 \<notin> set (particles world_n_02)"
    by (simp_all add: world_n_02_def)
  have c: "heap world_n_02 (particle_L world_n_02) = Particle_init 0 ''L'' ''k''"
    and d: "heap world_n_02 (particle_R world_n_02) = Particle_init 6 ''R'' ''k''"
    by (simp_all add: world_n_02_def)
  from fixed_particles_unchanged [OF a b, of cfg_n_02 300] show ?thesis
    using a b c d by (auto simp: Particle_init_def)
qed

subsection \<open>The order of the updates within a tick\<close>

lemma step_particle_self_force:
  "total_force (step_particle cfg pL pR ps p h p) = net_force cfg pL pR ps h p"
  by (simp add: step_particle_def)

lemma step_particle_self_position:
  "position (step_particle cfg pL pR ps p h p)
     = position (h p) + FORCE_POSITION_GAIN cfg * net_force cfg pL pR ps h p"
  by (simp add: step_particle_def)

lemma sweep_at_index:
  assumes "distinct ps'" and "i < length ps'"
  shows "sweep cfg pL pR ps ps' h (ps' ! i)
           = step_particle cfg pL pR ps (ps' ! i) (sweep cfg pL pR ps (take i ps') h) (ps' ! i)"
    and "sweep cfg pL pR ps (take i ps') h = store_seen_by h (sweep cfg pL pR ps ps' h) ps' i"
    and "ps' ! i \<notin> set (take i ps')"
proof -
  let ?p = "ps' ! i"
  let ?hi = "sweep cfg pL pR ps (take i ps') h"
  have split: "ps' = take i ps' @ ?p # drop (Suc i) ps'"
    using assms(2) by (simp add: id_take_nth_drop)
  have d: "distinct (take i ps' @ ?p # drop (Suc i) ps')"
    using assms(1) split by simp
  then have notin_drop: "?p \<notin> set (drop (Suc i) ps')"
    and notin_take: "?p \<notin> set (take i ps')"
    and disj: "set (take i ps') \<inter> set (drop (Suc i) ps') = {}"
    by auto
  show "?p \<notin> set (take i ps')" by (fact notin_take)
  have final: "sweep cfg pL pR ps ps' h
      = sweep cfg pL pR ps (drop (Suc i) ps') (step_particle cfg pL pR ps ?p ?hi)"
    by (subst split) (simp only: sweep_append sweep_Cons)
  show "sweep cfg pL pR ps ps' h ?p = step_particle cfg pL pR ps ?p ?hi ?p"
    by (simp add: final sweep_other [OF notin_drop])
  show "?hi = store_seen_by h (sweep cfg pL pR ps ps' h) ps' i"
  proof
    fix r
    show "?hi r = store_seen_by h (sweep cfg pL pR ps ps' h) ps' i r"
    proof (cases "r \<in> set (take i ps')")
      case True
      then have "r \<notin> set (drop (Suc i) ps')" and "r \<noteq> ?p"
        using disj notin_take by auto
      then have "sweep cfg pL pR ps ps' h r = ?hi r"
        by (simp add: final sweep_other step_particle_other)
      then show ?thesis using True by (simp add: store_seen_by_def)
    next
      case False
      then show ?thesis by (simp add: store_seen_by_def sweep_other)
    qed
  qed
qed

lemmas eval_defs = update_graphics_def loop_body_def compute_force_def force_value_def
  np_power_def np_divide_def move_def direction_def Particle_init_def

text \<open>
  Claim C1 says that every free particle's accumulated force is computed from the
  positions held at the start of the tick. The code moves each particle at the end of
  its own loop iteration, so the second particle of \<open>particles_1d_line_segment_04_02\<close>
  already sees the first one at \<open>0.994\<close> instead of \<open>1\<close>: its force is \<open>2503 / 2012\<close>
  where the start-of-tick positions give \<open>5 / 4\<close>.
\<close>

theorem synchronous_force_counterexample:
  "force_after_tick cfg_04_02 world_04_02 3 = Some (2503 / 2012)
   \<and> synchronous_force cfg_04_02 world_04_02 3 = 5 / 4
   \<and> force_after_tick cfg_04_02 world_04_02 3
        \<noteq> Some (synchronous_force cfg_04_02 world_04_02 3)"
proof -
  have a: "force_after_tick cfg_04_02 world_04_02 3 = Some (2503 / 2012)"
    by (simp add: force_after_tick_def cfg_04_02_def world_04_02_def eval_defs)
  have b: "synchronous_force cfg_04_02 world_04_02 3 = 5 / 4"
    by (simp add: synchronous_force_def net_force_def spec_contribution_def cfg_04_02_def
        world_04_02_def direction_def Particle_init_def)
  show ?thesis by (simp add: a b)
qed

text \<open>
  Claim C1, amended. For a tick over a list of free particles that holds no particle
  twice (as in every script): the particles are processed in list order, and the force
  accumulated for the \<open>i\<close>-th free particle is the sum of the contributions of both
  boundaries and of all other free particles at the positions held when that particle is
  processed, that is, the free particles before it in the list at the positions this tick
  has given them, and itself and everything else at the start-of-tick positions. For the
  first free particle of the list this is the sum at the start-of-tick positions.
\<close>

theorem sequential_force_accumulation:
  assumes "distinct (particles w)" and "i < length (particles w)"
  shows "\<exists>w' poss. update_graphics cfg w = Some (w', poss)
     \<and> total_force (heap w' (particles w ! i))
         = net_force cfg (particle_L w) (particle_R w) (particles w)
             (store_seen_by (heap w) (heap w') (particles w) i) (particles w ! i)
     \<and> total_force (heap w' (particles w ! 0)) = synchronous_force cfg w (particles w ! 0)"
proof -
  let ?h' = "sweep cfg (particle_L w) (particle_R w) (particles w) (particles w) (heap w)"
  have pos: "0 < length (particles w)" using assms(2) by (cases "particles w") simp_all
  have "?h' (particles w ! 0)
      = step_particle cfg (particle_L w) (particle_R w) (particles w) (particles w ! 0)
          (sweep cfg (particle_L w) (particle_R w) (particles w) (take 0 (particles w)) (heap w))
          (particles w ! 0)"
    by (rule sweep_at_index(1) [OF assms(1) pos])
  then have first:
    "total_force (?h' (particles w ! 0)) = synchronous_force cfg w (particles w ! 0)"
    by (simp add: sweep_def step_particle_self_force synchronous_force_def)
  let ?hi = "sweep cfg (particle_L w) (particle_R w) (particles w) (take i (particles w)) (heap w)"
  have a: "?h' (particles w ! i)
      = step_particle cfg (particle_L w) (particle_R w) (particles w) (particles w ! i) ?hi
          (particles w ! i)"
    by (rule sweep_at_index(1) [OF assms])
  have b: "?hi = store_seen_by (heap w) ?h' (particles w) i"
    by (rule sweep_at_index(2) [OF assms])
  have "total_force (?h' (particles w ! i))
         = net_force cfg (particle_L w) (particle_R w) (particles w) ?hi (particles w ! i)"
    by (simp only: a step_particle_self_force)
  also note b
  finally have "total_force (?h' (particles w ! i))
         = net_force cfg (particle_L w) (particle_R w) (particles w)
             (store_seen_by (heap w) ?h' (particles w) i) (particles w ! i)" .
  with first show ?thesis by (simp add: update_graphics_total)
qed

theorem sequential_force_accumulation_witness:
  "distinct (particles world_04_02) \<and> 1 < length (particles world_04_02)
   \<and> (\<exists>w' poss. update_graphics cfg_04_02 world_04_02 = Some (w', poss)
     \<and> total_force (heap w' (particles world_04_02 ! 1))
         = net_force cfg_04_02 (particle_L world_04_02) (particle_R world_04_02)
             (particles world_04_02)
             (store_seen_by (heap world_04_02) (heap w') (particles world_04_02) 1)
             (particles world_04_02 ! 1)
     \<and> total_force (heap w' (particles world_04_02 ! 0))
         = synchronous_force cfg_04_02 world_04_02 (particles world_04_02 ! 0))"
proof -
  have a: "distinct (particles world_04_02)" and b: "1 < length (particles world_04_02)"
    by (simp_all add: world_04_02_def)
  from sequential_force_accumulation [OF a b, of cfg_04_02] show ?thesis
    using a b by simp
qed

subsection \<open>Position integration\<close>

lemma sweep_poss_nth:
  "i < length rest \<Longrightarrow>
     sweep_poss cfg pL pR ps rest h ! i
       = position (step_particle cfg pL pR ps (rest ! i)
                     (sweep cfg pL pR ps (take i rest) h) (rest ! i))"
proof (induction rest arbitrary: i h)
  case Nil
  then show ?case by simp
next
  case (Cons p rest)
  show ?case
  proof (cases i)
    case 0
    then show ?thesis by (simp add: sweep_def)
  next
    case (Suc j)
    then show ?thesis using Cons.IH [of j] Cons.prems by (simp add: sweep_Cons)
  qed
qed

text \<open>
  Claim C3. Take any free particle, by its index \<open>i\<close> in the list, and the store \<open>h\<close>
  that the tick has reached when the loop arrives at it. The loop body resets the
  particle's force, accumulates into it the contributions of both boundaries and of all
  other free particles, so that it holds exactly their sum from zero, and then sets the
  position to the position in \<open>h\<close> plus \<open>FORCE_POSITION_GAIN\<close> times that sum; this
  position is entry \<open>i\<close> of \<open>poss\<close>. The script with one free particle adds the gain
  times the sum of its two contributions. The gain is a constant of the configuration,
  positive in the three scripts.
\<close>

theorem position_integration:
  assumes "i < length (particles w)"
  shows "(\<exists>h poss0 h' w' poss.
       particle_loop cfg (particle_L w) (particle_R w) (particles w)
         (take i (particles w)) (heap w, []) = Some (h, poss0)
     \<and> loop_body cfg (particle_L w) (particle_R w) (particles w) (particles w ! i) h = Some h'
     \<and> total_force (h' (particles w ! i))
         = net_force cfg (particle_L w) (particle_R w) (particles w) h (particles w ! i)
     \<and> position (h' (particles w ! i))
         = position (h (particles w ! i))
           + FORCE_POSITION_GAIN cfg
             * net_force cfg (particle_L w) (particle_R w) (particles w) h (particles w ! i)
     \<and> update_graphics cfg w = Some (w', poss)
     \<and> poss ! i = position (h' (particles w ! i)))
   \<and> update_graphics_03_02 cfg3 x
       = Some (x + FORCE_POSITION_GAIN cfg3
            * (spec_contribution x (PARTICLE_LEFT_POSITION cfg3) (direction cfg3)
                 (FORCE_DECAY_POWER cfg3)
               + spec_contribution x (PARTICLE_RIGHT_POSITION cfg3) (direction cfg3)
                   (FORCE_DECAY_POWER cfg3)))
   \<and> 0 < FORCE_POSITION_GAIN cfg_04_02 \<and> 0 < FORCE_POSITION_GAIN cfg_n_02
   \<and> 0 < FORCE_POSITION_GAIN cfg_03_02"
proof -
  let ?pL = "particle_L w" and ?pR = "particle_R w" and ?ps = "particles w"
  let ?p = "?ps ! i"
  let ?h = "sweep cfg ?pL ?pR ?ps (take i ?ps) (heap w)"
  let ?h' = "step_particle cfg ?pL ?pR ?ps ?p ?h"
  have a: "particle_loop cfg ?pL ?pR ?ps (take i ?ps) (heap w, [])
      = Some (?h, sweep_poss cfg ?pL ?pR ?ps (take i ?ps) (heap w))"
    by (simp add: particle_loop_total)
  have b: "loop_body cfg ?pL ?pR ?ps ?p ?h = Some ?h'" by (rule loop_body_total)
  have c: "total_force (?h' ?p) = net_force cfg ?pL ?pR ?ps ?h ?p"
    by (rule step_particle_self_force)
  have d: "position (?h' ?p)
      = position (?h ?p) + FORCE_POSITION_GAIN cfg * net_force cfg ?pL ?pR ?ps ?h ?p"
    by (rule step_particle_self_position)
  have e: "sweep_poss cfg ?pL ?pR ?ps ?ps (heap w) ! i = position (?h' ?p)"
    by (rule sweep_poss_nth [OF assms])
  have "\<exists>h poss0 h' w' poss.
       particle_loop cfg ?pL ?pR ?ps (take i ?ps) (heap w, []) = Some (h, poss0)
     \<and> loop_body cfg ?pL ?pR ?ps ?p h = Some h'
     \<and> total_force (h' ?p) = net_force cfg ?pL ?pR ?ps h ?p
     \<and> position (h' ?p)
         = position (h ?p) + FORCE_POSITION_GAIN cfg * net_force cfg ?pL ?pR ?ps h ?p
     \<and> update_graphics cfg w = Some (w', poss)
     \<and> poss ! i = position (h' ?p)"
    using a b c d e update_graphics_total [of cfg w] by blast
  then show ?thesis
    by (simp add: update_graphics_03_02_total cfg_04_02_def cfg_n_02_def cfg_03_02_def)
qed

text \<open>
  The theorem at the second particle of \<open>particles_1d_line_segment_04_02\<close>, in a world
  where that particle enters the tick with a leftover force of \<open>-3\<close>: the leftover does
  not reach the position.
\<close>

theorem position_integration_witness:
  "1 < length (particles world_04_02_relabelled)
   \<and> total_force (heap world_04_02_relabelled 3) = - 3
   \<and> (\<exists>w' poss. update_graphics cfg_04_02 world_04_02_relabelled = Some (w', poss)
        \<and> poss ! 1 = 2 + 3 / 100 * (2503 / 2012)
        \<and> total_force (heap w' 3) = 2503 / 2012)"
proof -
  have len: "1 < length (particles world_04_02_relabelled)"
    by (simp add: world_04_02_relabelled_def)
  have left: "total_force (heap world_04_02_relabelled 3) = - 3"
    by (simp add: world_04_02_relabelled_def)
  from position_integration [OF len, of cfg_04_02, THEN conjunct1]
  obtain h poss0 h' w' poss where all:
    "particle_loop cfg_04_02 (particle_L world_04_02_relabelled)
        (particle_R world_04_02_relabelled) (particles world_04_02_relabelled)
        (take 1 (particles world_04_02_relabelled)) (heap world_04_02_relabelled, [])
        = Some (h, poss0)
     \<and> loop_body cfg_04_02 (particle_L world_04_02_relabelled)
        (particle_R world_04_02_relabelled) (particles world_04_02_relabelled)
        (particles world_04_02_relabelled ! 1) h = Some h'
     \<and> total_force (h' (particles world_04_02_relabelled ! 1))
        = net_force cfg_04_02 (particle_L world_04_02_relabelled)
            (particle_R world_04_02_relabelled) (particles world_04_02_relabelled) h
            (particles world_04_02_relabelled ! 1)
     \<and> position (h' (particles world_04_02_relabelled ! 1))
        = position (h (particles world_04_02_relabelled ! 1))
          + FORCE_POSITION_GAIN cfg_04_02
            * net_force cfg_04_02 (particle_L world_04_02_relabelled)
                (particle_R world_04_02_relabelled) (particles world_04_02_relabelled) h
                (particles world_04_02_relabelled ! 1)
     \<and> update_graphics cfg_04_02 world_04_02_relabelled = Some (w', poss)
     \<and> poss ! 1 = position (h' (particles world_04_02_relabelled ! 1))"
    by (elim exE) (erule that)
  from all have start: "particle_loop cfg_04_02 (particle_L world_04_02_relabelled)
        (particle_R world_04_02_relabelled) (particles world_04_02_relabelled)
        (take 1 (particles world_04_02_relabelled)) (heap world_04_02_relabelled, [])
        = Some (h, poss0)"
    and pos: "position (h' (particles world_04_02_relabelled ! 1))
        = position (h (particles world_04_02_relabelled ! 1))
          + FORCE_POSITION_GAIN cfg_04_02
            * net_force cfg_04_02 (particle_L world_04_02_relabelled)
                (particle_R world_04_02_relabelled) (particles world_04_02_relabelled) h
                (particles world_04_02_relabelled ! 1)"
    and tick: "update_graphics cfg_04_02 world_04_02_relabelled = Some (w', poss)"
    and out: "poss ! 1 = position (h' (particles world_04_02_relabelled ! 1))"
    by simp_all
  have h: "position (h 0) = 0" "position (h 1) = 6" "position (h (Suc 0)) = 6"
    "position (h 2) = 497 / 500" "position (h 3) = 2"
    using start
    by (auto simp: world_04_02_relabelled_def cfg_04_02_def loop_body_def compute_force_def
        force_value_def np_power_def np_divide_def move_def direction_def Particle_init_def)
  have net: "net_force cfg_04_02 (particle_L world_04_02_relabelled)
      (particle_R world_04_02_relabelled) (particles world_04_02_relabelled) h
      (particles world_04_02_relabelled ! 1) = 2503 / 2012"
    by (simp add: net_force_def spec_contribution_def world_04_02_relabelled_def
        cfg_04_02_def direction_def h)
  have p3: "particles world_04_02_relabelled ! 1 = 3"
    by (simp add: world_04_02_relabelled_def)
  have "poss ! 1 = position (h (particles world_04_02_relabelled ! 1))
      + FORCE_POSITION_GAIN cfg_04_02 * (2503 / 2012)"
    by (simp only: out pos net)
  also have "\<dots> = 2 + 3 / 100 * (2503 / 2012)"
    unfolding p3 by (simp add: h cfg_04_02_def)
  finally have "poss ! 1 = 2 + 3 / 100 * (2503 / 2012)" .
  moreover have "total_force (heap w' 3) = 2503 / 2012"
    using tick
    by (simp add: update_graphics_def world_04_02_relabelled_def cfg_04_02_def loop_body_def
        compute_force_def force_value_def np_power_def np_divide_def move_def direction_def
        Particle_init_def) auto
  ultimately show ?thesis using len left tick by blast
qed

subsection \<open>Dependence on the initial positions only\<close>

lemma net_force_sum:
  "net_force cfg pL pR ps h p =
     spec_contribution (position (h p)) (position (h pL)) (direction cfg) (FORCE_DECAY_POWER cfg)
   + spec_contribution (position (h p)) (position (h pR)) (direction cfg) (FORCE_DECAY_POWER cfg)
   + sum_list (map (\<lambda>q. spec_contribution (position (h p)) (position (h q))
                          (direction cfg) (FORCE_DECAY_POWER cfg)) (filter (\<lambda>q. q \<noteq> p) ps))"
proof -
  have "foldl (\<lambda>acc q. acc + F q) a qs = a + sum_list (map F qs)" for F :: "ref \<Rightarrow> real" and a qs
    by (induction qs arbitrary: a) (simp_all add: add.assoc)
  then show ?thesis by (simp add: net_force_def)
qed

lemma net_force_agree:
  assumes "agree (insert pL (insert pR (set ps))) h1 h2" and "p \<in> set ps"
  shows "net_force cfg pL pR ps h1 p = net_force cfg pL pR ps h2 p"
proof -
  have pos: "position (h1 r) = position (h2 r)" if "r \<in> insert pL (insert pR (set ps))" for r
    using assms(1) that by (auto simp: agree_def)
  have m: "map (\<lambda>q. spec_contribution (position (h2 p)) (position (h1 q))
                   (direction cfg) (FORCE_DECAY_POWER cfg)) (filter (\<lambda>q. q \<noteq> p) ps)
      = map (\<lambda>q. spec_contribution (position (h2 p)) (position (h2 q))
                   (direction cfg) (FORCE_DECAY_POWER cfg)) (filter (\<lambda>q. q \<noteq> p) ps)"
    by (intro map_cong refl) (simp add: pos)
  have "position (h1 p) = position (h2 p)" "position (h1 pL) = position (h2 pL)"
    "position (h1 pR) = position (h2 pR)"
    using assms(2) by (simp_all add: pos)
  then show ?thesis by (simp only: net_force_sum m)
qed

lemma step_particle_agree:
  assumes "agree (insert pL (insert pR (set ps))) h1 h2" and "p \<in> set ps"
  shows "agree (insert pL (insert pR (set ps)))
           (step_particle cfg pL pR ps p h1) (step_particle cfg pL pR ps p h2)"
  using assms net_force_agree [OF assms, of cfg]
  by (auto simp: agree_def step_particle_def)

lemma sweep_agree:
  assumes "agree (insert pL (insert pR (set ps))) h1 h2" and "set rest \<subseteq> set ps"
  shows "agree (insert pL (insert pR (set ps)))
           (sweep cfg pL pR ps rest h1) (sweep cfg pL pR ps rest h2)
       \<and> sweep_poss cfg pL pR ps rest h1 = sweep_poss cfg pL pR ps rest h2"
  using assms
proof (induction rest arbitrary: h1 h2)
  case Nil
  then show ?case by (simp add: sweep_def)
next
  case (Cons p rest)
  then have p: "p \<in> set ps" and rest: "set rest \<subseteq> set ps" by simp_all
  have st: "agree (insert pL (insert pR (set ps)))
      (step_particle cfg pL pR ps p h1) (step_particle cfg pL pR ps p h2)"
    by (rule step_particle_agree [OF Cons.prems(1) p])
  then have "position (step_particle cfg pL pR ps p h1 p)
      = position (step_particle cfg pL pR ps p h2 p)"
    using p by (simp add: agree_def)
  then show ?case using Cons.IH [OF st rest] by (simp add: sweep_Cons)
qed

lemma same_positions_agree:
  "same_positions w1 w2 \<longleftrightarrow>
     particle_L w1 = particle_L w2 \<and> particle_R w1 = particle_R w2
     \<and> particles w1 = particles w2
     \<and> agree (insert (particle_L w1) (insert (particle_R w1) (set (particles w1))))
          (heap w1) (heap w2)"
  by (auto simp: same_positions_def agree_def list_all_iff)

lemma update_graphics_same_positions:
  assumes "same_positions w1 w2"
  shows "\<exists>w1' w2' poss. update_graphics cfg w1 = Some (w1', poss)
     \<and> update_graphics cfg w2 = Some (w2', poss) \<and> same_positions w1' w2'"
proof -
  from assms have eq: "particle_L w1 = particle_L w2" "particle_R w1 = particle_R w2"
      "particles w1 = particles w2"
    and ag: "agree (insert (particle_L w2) (insert (particle_R w2) (set (particles w2))))
          (heap w1) (heap w2)"
    by (auto simp: same_positions_agree)
  from sweep_agree [OF ag order_refl, of cfg]
  show ?thesis by (simp add: update_graphics_total same_positions_agree eq)
qed

lemma ticks_same_positions:
  "same_positions w1 w2 \<Longrightarrow>
     \<exists>w1' w2'. ticks cfg n w1 = Some w1' \<and> ticks cfg n w2 = Some w2' \<and> same_positions w1' w2'"
proof (induction n arbitrary: w1 w2)
  case 0
  then show ?case by simp
next
  case (Suc n)
  from update_graphics_same_positions [OF Suc.prems, of cfg]
  obtain v1 v2 poss where "update_graphics cfg w1 = Some (v1, poss)"
    "update_graphics cfg w2 = Some (v2, poss)" "same_positions v1 v2" by blast
  then show ?case using Suc.IH [of v1 v2] by simp
qed

lemma same_positions_positions: "same_positions w1 w2 \<Longrightarrow> positions w1 = positions w2"
  by (auto simp: same_positions_def positions_def list_all_iff)

text \<open>
  Claim C9. The relaxation is deterministic: the model has no input besides the
  configuration and the world (no clock, no random source; \<open>frame\<close> only feeds a label).
  Two runs with the same configuration whose worlds agree on the references and on the
  position of every boundary and free particle return the same list \<open>poss\<close> after a tick
  and hold the same positions after \<open>n\<close> ticks, whatever else the worlds hold.
\<close>

theorem deterministic_in_positions:
  assumes "same_positions w1 w2"
  shows "map_option snd (update_graphics cfg w1) = map_option snd (update_graphics cfg w2)
    \<and> (\<exists>w1' w2'. ticks cfg n w1 = Some w1' \<and> ticks cfg n w2 = Some w2'
          \<and> positions w1' = positions w2' \<and> same_positions w1' w2')"
proof -
  from update_graphics_same_positions [OF assms, of cfg]
  have "map_option snd (update_graphics cfg w1) = map_option snd (update_graphics cfg w2)"
    by auto
  moreover from ticks_same_positions [OF assms, of cfg n]
  have "\<exists>w1' w2'. ticks cfg n w1 = Some w1' \<and> ticks cfg n w2 = Some w2'
          \<and> positions w1' = positions w2' \<and> same_positions w1' w2'"
    using same_positions_positions by blast
  ultimately show ?thesis by simp
qed

theorem deterministic_in_positions_witness:
  "same_positions world_04_02 world_04_02_relabelled
   \<and> map_option snd (update_graphics cfg_04_02 world_04_02)
       = map_option snd (update_graphics cfg_04_02 world_04_02_relabelled)
   \<and> (\<exists>w1' w2'. ticks cfg_04_02 300 world_04_02 = Some w1'
         \<and> ticks cfg_04_02 300 world_04_02_relabelled = Some w2'
         \<and> positions w1' = positions w2' \<and> same_positions w1' w2')"
proof -
  have a: "same_positions world_04_02 world_04_02_relabelled"
    by (simp add: same_positions_def world_04_02_def world_04_02_relabelled_def
        Particle_init_def)
  from deterministic_in_positions [OF a, of cfg_04_02 300] show ?thesis
    using a by simp
qed

subsection \<open>Mirror images\<close>


lemma spec_contribution_odd:
  assumes "a - b = - (a' - b')"
  shows "spec_contribution a b d k = - spec_contribution a' b' d k"
proof -
  define x where "x = a' - b'"
  have "a - b = - x" using assms by (simp add: x_def)
  then have "spec_contribution a b d k = (if x = 0 then 0 else d * sgn (- x) / (\<bar>- x\<bar> powi k))"
    by (simp add: spec_contribution_def)
  also have "\<dots> = - (if x = 0 then 0 else d * sgn x / (\<bar>x\<bar> powi k))"
    by (simp add: sgn_minus)
  finally show ?thesis by (simp add: spec_contribution_def x_def)
qed

lemma sum_list_negated:
  "(\<And>q. q \<in> set qs \<Longrightarrow> F q = - G q) \<Longrightarrow> sum_list (map F qs) = - sum_list (map G qs :: real list)"
  by (induction qs) simp_all

lemma net_force_mirrored:
  assumes m: "mirrored c (set ps) h h'"
    and L: "pL \<notin> set ps" and R: "pR \<notin> set ps"
    and c: "c = position (h pL) + position (h pR)"
    and p: "p \<in> set ps"
  shows "net_force cfg pL pR ps h' p = - net_force cfg pL pR ps h p"
proof -
  let ?d = "direction cfg" and ?k = "FORCE_DECAY_POWER cfg"
  have pp: "position (h' p) = c - position (h p)"
    using m p by (simp add: mirrored_def)
  have pl: "position (h' pL) = position (h pL)" and pr: "position (h' pR) = position (h pR)"
    using m L R by (simp_all add: mirrored_def)
  have a: "spec_contribution (position (h' p)) (position (h' pL)) ?d ?k
      = - spec_contribution (position (h p)) (position (h pR)) ?d ?k"
    by (rule spec_contribution_odd) (simp add: pp pl c)
  have b: "spec_contribution (position (h' p)) (position (h' pR)) ?d ?k
      = - spec_contribution (position (h p)) (position (h pL)) ?d ?k"
    by (rule spec_contribution_odd) (simp add: pp pr c)
  have s: "sum_list (map (\<lambda>q. spec_contribution (position (h' p)) (position (h' q)) ?d ?k)
              (filter (\<lambda>q. q \<noteq> p) ps))
      = - sum_list (map (\<lambda>q. spec_contribution (position (h p)) (position (h q)) ?d ?k)
              (filter (\<lambda>q. q \<noteq> p) ps))"
  proof (rule sum_list_negated)
    fix q assume "q \<in> set (filter (\<lambda>q. q \<noteq> p) ps)"
    then have "position (h' q) = c - position (h q)"
      using m by (simp add: mirrored_def)
    then show "spec_contribution (position (h' p)) (position (h' q)) ?d ?k
        = - spec_contribution (position (h p)) (position (h q)) ?d ?k"
      by (intro spec_contribution_odd) (simp add: pp)
  qed
  show ?thesis unfolding net_force_sum a b s by simp
qed

lemma step_particle_mirrored:
  assumes m: "mirrored c (set ps) h h'"
    and L: "pL \<notin> set ps" and R: "pR \<notin> set ps"
    and c: "c = position (h pL) + position (h pR)"
    and p: "p \<in> set ps"
  shows "mirrored c (set ps) (step_particle cfg pL pR ps p h) (step_particle cfg pL pR ps p h')"
proof -
  have n: "net_force cfg pL pR ps h' p = - net_force cfg pL pR ps h p"
    by (rule net_force_mirrored [OF m L R c p])
  have pp: "position (h' p) = c - position (h p)"
    using m p by (simp add: mirrored_def)
  show ?thesis
    using m p by (auto simp: mirrored_def step_particle_def n pp)
qed

lemma sweep_mirrored:
  assumes "mirrored c (set ps) h h'"
    and L: "pL \<notin> set ps" and R: "pR \<notin> set ps"
    and "c = position (h pL) + position (h pR)"
    and "set rest \<subseteq> set ps"
  shows "mirrored c (set ps) (sweep cfg pL pR ps rest h) (sweep cfg pL pR ps rest h')"
  using assms(1,4,5)
proof (induction rest arbitrary: h h')
  case Nil
  then show ?case by (simp add: sweep_def)
next
  case (Cons p rest)
  then have p: "p \<in> set ps" and rest: "set rest \<subseteq> set ps" by simp_all
  have "pL \<noteq> p" "pR \<noteq> p" using p L R by auto
  then have c': "c = position (step_particle cfg pL pR ps p h pL)
                   + position (step_particle cfg pL pR ps p h pR)"
    using Cons.prems(2) by (simp add: step_particle_other)
  show ?case
    unfolding sweep_Cons
    by (rule Cons.IH [OF step_particle_mirrored [OF Cons.prems(1) L R Cons.prems(2) p] c' rest])
qed

lemma ticks_mirrored:
  assumes "mirrored (mirror w 0) (set (particles w)) (heap w) (heap v)"
    and "particle_L v = particle_L w" and "particle_R v = particle_R w"
    and "particles v = particles w"
    and "particle_L w \<notin> set (particles w)" and "particle_R w \<notin> set (particles w)"
  shows "\<exists>w' v'. ticks cfg n w = Some w' \<and> ticks cfg n v = Some v'
     \<and> particles w' = particles w \<and> particles v' = particles w
     \<and> mirrored (mirror w 0) (set (particles w)) (heap w') (heap v')"
  using assms
proof (induction n arbitrary: w v)
  case 0
  then show ?case by simp
next
  case (Suc n)
  let ?w1 = "w\<lparr>heap := sweep cfg (particle_L w) (particle_R w) (particles w) (particles w) (heap w)\<rparr>"
  let ?v1 = "v\<lparr>heap := sweep cfg (particle_L w) (particle_R w) (particles w) (particles w) (heap v)\<rparr>"
  have c: "mirror w 0 = position (heap w (particle_L w)) + position (heap w (particle_R w))"
    by (simp add: mirror_def)
  have m1: "mirrored (mirror w 0) (set (particles w)) (heap ?w1) (heap ?v1)"
    using sweep_mirrored [OF Suc.prems(1) Suc.prems(5) Suc.prems(6) c order_refl, of cfg]
    by simp
  have same: "mirror ?w1 0 = mirror w 0"
    using Suc.prems(5,6) by (simp add: mirror_def sweep_other)
  have "\<exists>w' v'. ticks cfg n ?w1 = Some w' \<and> ticks cfg n ?v1 = Some v'
     \<and> particles w' = particles ?w1 \<and> particles v' = particles ?w1
     \<and> mirrored (mirror ?w1 0) (set (particles ?w1)) (heap w') (heap v')"
    by (rule Suc.IH) (use m1 same Suc.prems in simp_all)
  then show ?case
    using same Suc.prems(2,3,4) by (simp add: update_graphics_total)
qed

lemma reflect_free_mirrored:
  "mirrored (mirror w 0) (set (particles w)) (heap w) (heap (reflect_free w))"
  by (simp add: mirrored_def reflect_free_def mirror_def)



subsection \<open>The midpoint in exact arithmetic\<close>

lemma midpoint_forces_cancel:
  "spec_contribution (midpoint cfg) (PARTICLE_LEFT_POSITION cfg) d k
     + spec_contribution (midpoint cfg) (PARTICLE_RIGHT_POSITION cfg) d k = 0"
proof -
  have "midpoint cfg - PARTICLE_LEFT_POSITION cfg
      = - (midpoint cfg - PARTICLE_RIGHT_POSITION cfg)"
    by (simp add: midpoint_def field_simps)
  from spec_contribution_odd [OF this, of d k] show ?thesis by simp
qed

lemma midpoint_update: 
  "PARTICLE_LEFT_POSITION cfg' = PARTICLE_LEFT_POSITION cfg \<Longrightarrow>
   PARTICLE_RIGHT_POSITION cfg' = PARTICLE_RIGHT_POSITION cfg \<Longrightarrow>
   update_graphics_03_02 cfg' (midpoint cfg) = Some (midpoint cfg)"
  using midpoint_forces_cancel [of cfg "direction cfg'" "FORCE_DECAY_POWER cfg'"]
  by (simp add: update_graphics_03_02_total)

lemma midpoint_ticks:
  "PARTICLE_LEFT_POSITION cfg' = PARTICLE_LEFT_POSITION cfg \<Longrightarrow>
   PARTICLE_RIGHT_POSITION cfg' = PARTICLE_RIGHT_POSITION cfg \<Longrightarrow>
   ticks_03_02 cfg' n (midpoint cfg) = Some (midpoint cfg)"
  by (induction n) (simp_all add: midpoint_update)

text \<open>
  Over exact reals the two forces at the midpoint cancel for all boundaries, decay powers
  and gains. In doubles this needs more, see the subsections on double arithmetic.
\<close>

lemma midpoint_fixed_in_exact_arithmetic:
  "\<exists>force_left_particle force_right_particle.
     forces_03_02 (cfg\<lparr>IS_REPULSIVE := True\<rparr>) (midpoint cfg)
       = Some (force_left_particle, force_right_particle)
     \<and> force_left_particle + force_right_particle = 0
     \<and> update_graphics_03_02 (cfg\<lparr>IS_REPULSIVE := True\<rparr>) (midpoint cfg) = Some (midpoint cfg)
     \<and> ticks_03_02 (cfg\<lparr>IS_REPULSIVE := True\<rparr>) n (midpoint cfg) = Some (midpoint cfg)"
  using midpoint_forces_cancel [of cfg "direction (cfg\<lparr>IS_REPULSIVE := True\<rparr>)" "FORCE_DECAY_POWER cfg"]
  by (simp add: forces_03_02_total midpoint_update midpoint_ticks)

subsection \<open>The force law\<close>

text \<open>
  \<open>compute_force\<close> and \<open>particles_1d_line_segment_03_02.py\<close> compute the contribution of
  the specification in both modes (lemmas \<open>force_value_total\<close>, \<open>compute_force_total\<close>
  and \<open>forces_03_02_total\<close>). The earlier revision agrees in repulsive mode only: with
  \<open>IS_REPULSIVE = 0\<close> the factor \<open>np.sign(dx) ** 0\<close> is \<open>1\<close>, so the force is
  \<open>1 / |dx| ^ decay_power\<close> whatever the sign of \<open>dx\<close>.
\<close>

lemma force_rev0_repulsive:
  "force_rev0 (cfg\<lparr>IS_REPULSIVE_int := 1\<rparr>) a b
     = Some (spec_contribution a b 1 (FORCE_DECAY_POWER_rev0 cfg))"
  by (simp add: force_rev0_def spec_contribution_def np_power_def np_divide_def Let_def)

lemma force_rev0_attractive:
  "force_rev0 (cfg\<lparr>IS_REPULSIVE_int := 0\<rparr>) a b
     = Some (if a - b = 0 then 0 else 1 / (\<bar>a - b\<bar> powi FORCE_DECAY_POWER_rev0 cfg))"
  by (simp add: force_rev0_def np_power_def np_divide_def Let_def)

text \<open>
  Claim C2 at the earlier revision in attractive mode (\<open>IS_REPULSIVE = 0\<close>, the other
  constants as shipped): for the free particle at \<open>1\<close> and the left boundary at \<open>0\<close> the
  code computes the force \<open>+1\<close>, away from the boundary, where the law of the claim
  gives \<open>-1\<close>; the tick moves the particle from \<open>1\<close> to \<open>28 / 25\<close>.
\<close>

theorem rev0_attractive_mode_force:
  "force_rev0 (cfg_rev0\<lparr>IS_REPULSIVE_int := 0\<rparr>) 1 0 = Some 1
   \<and> spec_contribution 1 0 (- 1) 1 = - 1
   \<and> update_graphics_rev0 (cfg_rev0\<lparr>IS_REPULSIVE_int := 0\<rparr>) 1 = Some (28 / 25)"
  by (simp add: force_rev0_def update_graphics_rev0_def spec_contribution_def cfg_rev0_def
      np_power_def np_divide_def)

subsection \<open>The shipped run of the script with one free particle\<close>

lemma ticks_03_02_Suc_right:
  "ticks_03_02 cfg (Suc n) x = Option.bind (ticks_03_02 cfg n x) (update_graphics_03_02 cfg)"
  by (induction n arbitrary: x) (simp_all add: update_graphics_03_02_total)

lemma update_graphics_03_02_step: "update_graphics_03_02 cfg_03_02 x = Some (step_03_02 x)"
  by (simp add: update_graphics_03_02_total step_03_02_def cfg_03_02_def direction_def)

lemma trajectory_funpow: "trajectory_03_02 n = Some ((step_03_02 ^^ n) 1)"
  unfolding trajectory_03_02_def
proof (induction n)
  case 0
  show ?case by simp
next
  case (Suc n)
  show ?case
    by (simp only: ticks_03_02_Suc_right Suc.IH) (simp add: update_graphics_03_02_step)
qed

lemma step_03_02_inside:
  assumes "0 < x" and "x < 6"
  shows "step_03_02 x = x + 1 / 10 * (1 / x - 1 / (6 - x))"
  using assms by (simp add: step_03_02_def spec_contribution_def)

lemma step_03_02_gap:
  assumes "0 < x" and "x < 6"
  shows "3 - step_03_02 x = (3 - x) * (1 - 1 / (5 * (x * (6 - x))))"
  using assms by (simp add: step_03_02_inside field_simps)

lemma product_bounds:
  assumes "1 \<le> x" and "x < (3::real)"
  shows "5 \<le> x * (6 - x)" and "x * (6 - x) < 9"
proof -
  have "x * (6 - x) - 5 = (x - 1) * (5 - x)" by (simp add: algebra_simps)
  moreover have "0 \<le> (x - 1) * (5 - x)" using assms by (intro mult_nonneg_nonneg) simp_all
  ultimately show "5 \<le> x * (6 - x)" by linarith
  have "9 - x * (6 - x) = (3 - x) * (3 - x)" by (simp add: algebra_simps)
  moreover have "0 < (3 - x) * (3 - x)" using assms by (intro mult_pos_pos) simp_all
  ultimately show "x * (6 - x) < 9" by linarith
qed

lemma factor_bounds:
  assumes "1 \<le> x" and "x < (3::real)"
  shows "24 / 25 \<le> 1 - 1 / (5 * (x * (6 - x)))" and "1 - 1 / (5 * (x * (6 - x))) < 44 / 45"
proof -
  have a: "5 \<le> x * (6 - x)" and b: "x * (6 - x) < 9" using product_bounds [OF assms] .
  have "1 / (5 * (x * (6 - x))) \<le> 1 / 25"
    using a by (intro divide_left_mono) simp_all
  then show "24 / 25 \<le> 1 - 1 / (5 * (x * (6 - x)))" by simp
  have "1 / 45 < 1 / (5 * (x * (6 - x)))"
    using a b by (intro divide_strict_left_mono) simp_all
  then show "1 - 1 / (5 * (x * (6 - x))) < 44 / 45" by simp
qed

lemma step_03_02_toward_3:
  assumes "1 \<le> x" and "x < 3"
  shows "x < step_03_02 x" and "step_03_02 x < 3"
    and "3 - step_03_02 x \<le> 44 / 45 * (3 - x)"
proof -
  let ?c = "1 - 1 / (5 * (x * (6 - x)))"
  have gap: "3 - step_03_02 x = (3 - x) * ?c"
    using assms by (intro step_03_02_gap) simp_all
  have lo: "24 / 25 \<le> ?c" and hi: "?c < 44 / 45" using factor_bounds [OF assms] .
  have pos: "0 < 3 - x" using assms by simp
  have cpos: "0 < ?c" using lo by linarith
  have c1: "?c < 1" using hi by linarith
  have c2: "?c \<le> 44 / 45" using hi by linarith
  have "0 < (3 - x) * ?c" by (rule mult_pos_pos [OF pos cpos])
  then show "step_03_02 x < 3" using gap by linarith
  have "(3 - x) * ?c < 3 - x" using mult_strict_left_mono [OF c1 pos] by simp
  then show "x < step_03_02 x" using gap by linarith
  have "(3 - x) * ?c \<le> (3 - x) * (44 / 45)"
    by (rule mult_left_mono [OF c2]) (use pos in linarith)
  then show "3 - step_03_02 x \<le> 44 / 45 * (3 - x)" using gap by linarith
qed

lemma orbit_range: "1 \<le> (step_03_02 ^^ n) 1 \<and> (step_03_02 ^^ n) 1 < 3"
proof (induction n)
  case 0
  show ?case by simp
next
  case (Suc n)
  then show ?case
    using step_03_02_toward_3(1,2) [of "(step_03_02 ^^ n) 1"] by simp
qed

lemma orbit_gap: "3 - (step_03_02 ^^ n) 1 \<le> 2 * (44 / 45) ^ n"
proof (induction n)
  case 0
  show ?case by simp
next
  case (Suc n)
  have "3 - (step_03_02 ^^ Suc n) 1 \<le> 44 / 45 * (3 - (step_03_02 ^^ n) 1)"
    using step_03_02_toward_3(3) [of "(step_03_02 ^^ n) 1"] orbit_range [of n] by simp
  also have "\<dots> \<le> 44 / 45 * (2 * (44 / 45) ^ n)"
    using Suc.IH by (intro mult_left_mono) simp_all
  finally show ?case by simp
qed

lemma step_03_02_displacement:
  assumes "1 \<le> x" and "x < 3"
  shows "step_03_02 x - x = (3 - x) / (5 * (x * (6 - x)))"
proof -
  have "step_03_02 x - x = (3 - x) - (3 - step_03_02 x)" by simp
  also have "\<dots> = (3 - x) - (3 - x) * (1 - 1 / (5 * (x * (6 - x))))"
    using assms by (subst step_03_02_gap) simp_all
  finally show ?thesis by (simp add: algebra_simps)
qed

lemma displacement_decreases:
  assumes "1 \<le> x" and "x < 3"
  shows "step_03_02 (step_03_02 x) - step_03_02 x < step_03_02 x - x"
proof -
  let ?y = "step_03_02 x"
  have y: "x < ?y" "?y < 3" using step_03_02_toward_3(1,2) [OF assms] .
  then have y1: "1 \<le> ?y" using assms by simp
  have px: "5 \<le> x * (6 - x)" using product_bounds(1) [OF assms] .
  have "?y * (6 - ?y) - x * (6 - x) = (?y - x) * (6 - x - ?y)" by (simp add: algebra_simps)
  moreover have "0 < (?y - x) * (6 - x - ?y)" using y assms by (intro mult_pos_pos) simp_all
  ultimately have mono: "x * (6 - x) < ?y * (6 - ?y)" by linarith
  have "step_03_02 ?y - ?y = (3 - ?y) / (5 * (?y * (6 - ?y)))"
    by (rule step_03_02_displacement [OF y1 y(2)])
  also have "\<dots> < (3 - x) / (5 * (x * (6 - x)))"
    using y assms px mono by (intro frac_less2) simp_all
  also have "\<dots> = ?y - x" by (rule step_03_02_displacement [OF assms, symmetric])
  finally show ?thesis .
qed

lemma orbit_tendsto: "(\<lambda>n. (step_03_02 ^^ n) 1) \<longlonglongrightarrow> 3"
proof -
  have "(\<lambda>n. 2 * (44 / 45 :: real) ^ n) \<longlonglongrightarrow> 2 * 0"
    by (intro tendsto_mult_left LIMSEQ_realpow_zero) simp_all
  then have z: "(\<lambda>n. 2 * (44 / 45 :: real) ^ n) \<longlonglongrightarrow> 0" by simp
  have "(\<lambda>n. 3 - (step_03_02 ^^ n) 1) \<longlonglongrightarrow> 0"
  proof (rule tendsto_sandwich [OF _ _ tendsto_const z])
    show "\<forall>\<^sub>F n in sequentially. 0 \<le> 3 - (step_03_02 ^^ n) 1"
      using orbit_range by (intro always_eventually allI) (simp add: less_imp_le)
    show "\<forall>\<^sub>F n in sequentially. 3 - (step_03_02 ^^ n) 1 \<le> 2 * (44 / 45) ^ n"
      using orbit_gap by (intro always_eventually allI)
  qed
  then have "(\<lambda>n. 3 - (3 - (step_03_02 ^^ n) 1)) \<longlonglongrightarrow> 3 - 0"
    by (intro tendsto_diff tendsto_const)
  then show ?thesis by simp
qed

lemma orbit_within_tolerance: "\<exists>N. \<forall>n. \<bar>(step_03_02 ^^ (N + n)) 1 - 3\<bar> < 1 / 10 ^ 6"
proof -
  obtain N where N: "(44 / 45 :: real) ^ N < 1 / (2 * 10 ^ 6)"
    using real_arch_pow_inv [of "1 / (2 * 10 ^ 6)" "44 / 45"] by auto
  have "\<bar>(step_03_02 ^^ (N + n)) 1 - 3\<bar> < 1 / 10 ^ 6" for n
  proof -
    have "(44 / 45 :: real) ^ (N + n) \<le> (44 / 45) ^ N"
      by (intro power_decreasing) simp_all
    moreover have "2 * (44 / 45 :: real) ^ N < 1 / 10 ^ 6" using N by (simp add: field_simps)
    ultimately have "2 * (44 / 45 :: real) ^ (N + n) < 1 / 10 ^ 6" by linarith
    then have "3 - (step_03_02 ^^ (N + n)) 1 < 1 / 10 ^ 6"
      using orbit_gap [of "N + n"] by linarith
    then show ?thesis using orbit_range [of "N + n"] by simp
  qed
  then show ?thesis by blast
qed

text \<open>
  Claim C8. With boundaries \<open>0\<close> and \<open>6\<close>, repulsive force, decay power \<open>1\<close> and gain
  \<open>0.1\<close>, the positions \<open>x n\<close> of the free particle after \<open>n\<close> ticks from \<open>1\<close> exist for
  every \<open>n\<close>, increase strictly and stay below \<open>3\<close>; the displacement of each tick is
  strictly smaller than that of the tick before, from the first tick on; the sequence
  converges to \<open>3\<close>, and from some tick on every position is within \<open>1e-6\<close> of \<open>3\<close>.
  The arithmetic is exact real arithmetic.
\<close>

theorem trajectory_03_02_converges:
  "\<exists>x. x 0 = 1
     \<and> (\<forall>n. trajectory_03_02 n = Some (x n))
     \<and> (\<forall>n. x n < x (Suc n) \<and> x (Suc n) < 3)
     \<and> (\<forall>n. x (Suc (Suc n)) - x (Suc n) < x (Suc n) - x n)
     \<and> x \<longlonglongrightarrow> 3
     \<and> (\<exists>N. \<forall>n. \<bar>x (N + n) - 3\<bar> < 1 / 10 ^ 6)"
proof (intro exI [of _ "\<lambda>n. (step_03_02 ^^ n) 1"] conjI allI)
  show "(step_03_02 ^^ 0) 1 = (1::real)" by simp
  show "trajectory_03_02 n = Some ((step_03_02 ^^ n) 1)" for n by (rule trajectory_funpow)
  show "(step_03_02 ^^ n) 1 < (step_03_02 ^^ Suc n) 1" for n
    using step_03_02_toward_3(1) [of "(step_03_02 ^^ n) 1"] orbit_range [of n] by simp
  show "(step_03_02 ^^ Suc n) 1 < 3" for n using orbit_range [of "Suc n"] by simp
  show "(step_03_02 ^^ Suc (Suc n)) 1 - (step_03_02 ^^ Suc n) 1
      < (step_03_02 ^^ Suc n) 1 - (step_03_02 ^^ n) 1" for n
    using displacement_decreases [of "(step_03_02 ^^ n) 1"] orbit_range [of n] by simp
  show "(\<lambda>n. (step_03_02 ^^ n) 1) \<longlonglongrightarrow> 3" by (rule orbit_tendsto)
  show "\<exists>N. \<forall>n. \<bar>(step_03_02 ^^ (N + n)) 1 - 3\<bar> < 1 / 10 ^ 6" by (rule orbit_within_tolerance)
qed

section \<open>Properties in double arithmetic\<close>

subsection \<open>Rounding\<close>

lemma binade_bounds:
  assumes "x \<noteq> 0"
  shows "2 powi binade x \<le> \<bar>x\<bar>" and "\<bar>x\<bar> < 2 powi (binade x + 1)"
proof -
  have pos: "0 < \<bar>x\<bar>" using assms by simp
  have "2 powr (of_int (binade x)) \<le> \<bar>x\<bar> \<and> \<bar>x\<bar> < 2 powr (of_int (binade x + 1))"
    using floor_log_eq_powr_iff [of "\<bar>x\<bar>" 2 "binade x"] pos by (simp add: binade_def)
  then show "2 powi binade x \<le> \<bar>x\<bar>" and "\<bar>x\<bar> < 2 powi (binade x + 1)"
    using powr_real_of_int' [of 2 "binade x"] powr_real_of_int' [of 2 "binade x + 1"]
    by simp_all
qed

lemma binade_eqI:
  assumes "2 powi e \<le> \<bar>x\<bar>" and "\<bar>x\<bar> < 2 powi (e + 1)"
  shows "binade x = e"
proof -
  have pos: "0 < \<bar>x\<bar>" by (rule less_le_trans [OF _ assms(1)]) simp
  have "2 powr (of_int e) \<le> \<bar>x\<bar> \<and> \<bar>x\<bar> < 2 powr (of_int (e + 1))"
    using assms powr_real_of_int' [of 2 e] powr_real_of_int' [of 2 "e + 1"] by simp
  then show ?thesis
    using floor_log_eq_powr_iff [of "\<bar>x\<bar>" 2 e] pos by (simp add: binade_def)
qed

lemma binade_minus [simp]: "binade (- x) = binade x"
  by (simp add: binade_def)

lemma quantum_minus [simp]: "quantum (- x) = quantum x"
  by (simp add: quantum_def)

lemma quantum_pos [simp]: "0 < quantum x"
  by (simp add: quantum_def)

lemma round_half_even_of_int [simp]: "round_half_even (of_int n) = n"
  by (simp add: round_half_even_def)

lemma round_half_even_minus: "round_half_even (- r) = - round_half_even r"
proof (cases "r \<in> \<int>")
  case True
  then obtain n where "r = of_int n" by (auto elim: Ints_cases)
  then show ?thesis by (simp flip: of_int_minus)
next
  case False
  then have "r \<noteq> of_int \<lfloor>r\<rfloor>" by (metis Ints_of_int)
  then have "\<lceil>r\<rceil> = \<lfloor>r\<rfloor> + 1" by (simp add: ceiling_altdef)
  then have fl: "\<lfloor>- r\<rfloor> = - \<lfloor>r\<rfloor> - 1"
    by (simp add: ceiling_def)
  define d where "d = r - of_int \<lfloor>r\<rfloor>"
  have d: "0 < d" "d < 1"
    using False unfolding d_def
    by (metis Ints_of_int diff_gt_0_iff_gt less_eq_real_def of_int_floor_le, linarith)
  have d': "- r - of_int \<lfloor>- r\<rfloor> = 1 - d" by (simp add: fl d_def)
  show ?thesis
    unfolding round_half_even_def Let_def d' unfolding fl d_def [symmetric]
    using d by (auto simp: field_simps)
qed

lemma to_double_minus: "to_double (- x) = map_option uminus (to_double x)"
  by (simp add: to_double_def Let_def round_half_even_minus)

lemma round_half_even_near: "\<bar>of_int (round_half_even r) - r\<bar> \<le> 1 / 2"
proof -
  have "of_int \<lfloor>r\<rfloor> \<le> r" "r < of_int \<lfloor>r\<rfloor> + 1" by linarith+
  then show ?thesis by (auto simp: round_half_even_def Let_def)
qed

lemma round_half_even_le_power:
  assumes "\<bar>r\<bar> < 2 ^ k"
  shows "\<bar>round_half_even r\<bar> \<le> 2 ^ k"
proof -
  have "\<bar>of_int (round_half_even r) :: real\<bar> \<le> \<bar>r\<bar> + 1 / 2"
    using round_half_even_near [of r] by linarith
  then have "\<bar>of_int (round_half_even r) :: real\<bar> < of_int (2 ^ k) + 1"
    using assms by simp
  then have "of_int \<bar>round_half_even r\<bar> < (of_int (2 ^ k + 1) :: real)"
    by simp
  then have "\<bar>round_half_even r\<bar> < 2 ^ k + 1" by (simp only: of_int_less_iff)
  then show ?thesis by simp
qed

lemma scaled_less:
  assumes "x \<noteq> 0"
  shows "\<bar>x / quantum x\<bar> < 2 ^ 53"
proof -
  have "2 powi (binade x - 52) \<le> quantum x"
    unfolding quantum_def by (intro power_int_increasing) simp_all
  moreover have "\<bar>x\<bar> < 2 powi (binade x + 1)" by (rule binade_bounds(2) [OF assms])
  moreover have "(2::real) powi (binade x + 1) = 2 ^ 53 * 2 powi (binade x - 52)"
  proof -
    have "binade x + 1 = 53 + (binade x - 52)" by simp
    then have "(2::real) powi (binade x + 1) = 2 powi (53 + (binade x - 52))"
      by (rule arg_cong)
    also have "\<dots> = 2 powi 53 * 2 powi (binade x - 52)"
      by (rule power_int_add) simp
    finally show ?thesis by simp
  qed
  ultimately have "\<bar>x\<bar> < 2 ^ 53 * 2 powi (binade x - 52)"
    and "2 ^ 53 * 2 powi (binade x - 52) \<le> 2 ^ 53 * quantum x"
    by simp_all
  then have "\<bar>x\<bar> < 2 ^ 53 * quantum x" by (rule less_le_trans)
  then show ?thesis by (simp add: abs_divide pos_divide_less_eq)
qed

lemma mantissa_le:
  assumes "x \<noteq> 0"
  shows "\<bar>round_half_even (x / quantum x)\<bar> \<le> 2 ^ 53"
  by (rule round_half_even_le_power [OF scaled_less [OF assms]])

lemma binade_less:
  assumes "x \<noteq> 0" and "\<bar>x\<bar> < 2 powi k"
  shows "binade x < k"
proof (rule ccontr)
  assume "\<not> binade x < k"
  then have "(2::real) powi k \<le> 2 powi binade x" by (intro power_int_increasing) simp_all
  with binade_bounds(1) [OF assms(1)] assms(2) show False by linarith
qed

lemma to_double_finite:
  assumes "\<bar>x\<bar> < 2 ^ 1023"
  shows "\<exists>y. to_double x = Some y"
proof (cases "x = 0")
  case True
  then show ?thesis by (simp add: to_double_def)
next
  case False
  have "binade x < 1023" using binade_less [OF False, of 1023] assms by simp
  then have "max (binade x - 52) (- 1074) \<le> 970" by simp
  then have q: "quantum x \<le> 2 powi 970"
    unfolding quantum_def by (intro power_int_increasing) simp_all
  let ?n = "round_half_even (x / quantum x)"
  have "\<bar>of_int ?n :: real\<bar> \<le> 2 ^ 53"
    using mantissa_le [OF False] by (metis of_int_abs of_int_le_numeral_power_cancel_iff)
  moreover have "\<bar>quantum x\<bar> \<le> 2 powi 970"
    using q by (simp only: abs_of_pos [OF quantum_pos])
  ultimately have "\<bar>of_int ?n * quantum x\<bar> \<le> 2 ^ 53 * 2 powi 970"
    unfolding abs_mult by (intro mult_mono) simp_all
  also have "\<dots> < (2::real) ^ 1024" by simp
  finally show ?thesis by (simp add: to_double_def Let_def False)
qed

lemma to_double_multiple:
  assumes "x = of_int m * quantum x" and "\<bar>x\<bar> < 2 ^ 1024"
  shows "to_double x = Some x"
proof (cases "x = 0")
  case True
  then show ?thesis by (simp add: to_double_def)
next
  case False
  have "x / quantum x = of_int m"
    using assms(1) quantum_pos [of x] by (metis nonzero_mult_div_cancel_right less_irrefl)
  then show ?thesis using assms by (simp add: to_double_def Let_def False)
qed

lemma to_double_idem:
  assumes "to_double x = Some y"
  shows "to_double y = Some y"
proof (cases "x = 0 \<or> y = 0")
  case True
  then show ?thesis using assms by (auto simp: to_double_def Let_def split: if_splits)
next
  case False
  then have x: "x \<noteq> 0" and y: "y \<noteq> 0" by simp_all
  define u where "u = max (binade x - 52) (- 1074)"
  define n where "n = round_half_even (x / quantum x)"
  have qx: "quantum x = 2 powi u" by (simp add: quantum_def u_def)
  have yn: "y = of_int n * 2 powi u" and fin: "\<bar>y\<bar> < 2 ^ 1024"
    using assms x by (auto simp: to_double_def Let_def n_def qx split: if_splits)
  have n: "\<bar>n\<bar> \<le> 2 ^ 53" unfolding n_def by (rule mantissa_le [OF x])
  have u: "- 1074 \<le> u" by (simp add: u_def)
  define u' where "u' = max (binade y - 52) (- 1074)"
  have qy: "quantum y = 2 powi u'" by (simp add: quantum_def u'_def)
  have "\<exists>m. y = of_int m * 2 powi u'"
  proof (cases "\<bar>n\<bar> < 2 ^ 53")
    case True
    then have "\<bar>of_int n :: real\<bar> < 2 ^ 53"
      by (metis of_int_abs of_int_less_numeral_power_cancel_iff)
    then have "\<bar>y\<bar> < 2 ^ 53 * 2 powi u"
      unfolding yn abs_mult by (simp add: mult_strict_right_mono)
    also have "\<dots> = 2 powi (53 + u)"
      using power_int_add [of "2::real" 53 u] by simp
    finally have "binade y < 53 + u" by (rule binade_less [OF y])
    then have le: "u' \<le> u" using u by (simp add: u'_def)
    have "(2::real) powi u = 2 powi (u - u') * 2 powi u'"
      using power_int_add [of "2::real" "u - u'" u'] by simp
    also have "(2::real) powi (u - u') = of_int (2 ^ nat (u - u'))"
      using le by (simp add: power_int_def)
    finally have "y = of_int (n * 2 ^ nat (u - u')) * 2 powi u'"
      by (simp add: yn)
    then show ?thesis by blast
  next
    case False
    with n have "\<bar>n\<bar> = 2 ^ 53" by simp
    then have "\<bar>of_int n :: real\<bar> = 2 ^ 53"
      by (metis of_int_abs of_int_numeral of_int_power)
    then have ay: "\<bar>y\<bar> = 2 powi (53 + u)"
      unfolding yn abs_mult using power_int_add [of "2::real" 53 u] by simp
    have "binade y = 53 + u"
      by (rule binade_eqI) (simp_all add: ay power_int_strict_increasing)
    then have u': "u' = u + 1" using u by (simp add: u'_def)
    have "(2::real) powi u' = 2 * 2 powi u"
      using power_int_add [of "2::real" 1 u] by (simp add: u' add.commute)
    moreover have "even n" using \<open>\<bar>n\<bar> = 2 ^ 53\<close> by (metis even_abs_add_iff even_add even_numeral even_power zero_less_numeral)
    then obtain m where "n = 2 * m" by (auto elim: evenE)
    ultimately have "y = of_int m * 2 powi u'" by (simp add: yn)
    then show ?thesis by blast
  qed
  then obtain m where "y = of_int m * quantum y" by (auto simp: qy)
  then show ?thesis using fin by (rule to_double_multiple)
qed

lemma is_double_to_double: "to_double x = Some y \<Longrightarrow> is_double y"
  by (simp add: is_double_def to_double_idem)

lemma to_double_eval:
  assumes "2 powi e \<le> \<bar>x\<bar>" and "\<bar>x\<bar> < 2 powi (e + 1)"
  shows "to_double x =
     (let q = 2 powi max (e - 52) (- 1074); y = of_int (round_half_even (x / q)) * q
      in if \<bar>y\<bar> < 2 ^ 1024 then Some y else None)"
proof -
  have "0 < \<bar>x\<bar>" by (rule less_le_trans [OF _ assms(1)]) simp
  then have "x \<noteq> 0" by simp
  then show ?thesis
    by (simp add: to_double_def quantum_def binade_eqI [OF assms] Let_def)
qed

lemma to_double_0 [simp]: "to_double 0 = Some 0"
  by (simp add: to_double_def)

lemma to_double_1: "to_double 1 = Some 1"
  by (subst to_double_eval [where e = 0]) (simp_all add: round_half_even_def Let_def)

lemma to_double_unit:
  assumes "s = 1 \<or> s = - 1"
  shows "to_double s = Some s"
  using assms to_double_1 to_double_minus [of 1] by auto

lemma to_double_abs:
  assumes "to_double x = Some x"
  shows "to_double \<bar>x\<bar> = Some \<bar>x\<bar>"
proof (cases "0 \<le> x")
  case True
  then show ?thesis using assms by simp
next
  case False
  then have "\<bar>x\<bar> = - x" by simp
  then show ?thesis using assms by (simp add: to_double_minus)
qed

lemma reciprocal_finite:
  assumes "2 powi (- 1022) \<le> \<bar>d\<bar>" and "s = 1 \<or> s = - 1"
  shows "\<exists>f. to_double (s / \<bar>d\<bar>) = Some f"
proof (rule to_double_finite)
  have pos: "(0::real) < 2 powi (- 1022)" by simp
  have "\<bar>s / \<bar>d\<bar>\<bar> = 1 / \<bar>d\<bar>" using assms(2) by auto
  also have "\<dots> \<le> 1 / 2 powi (- 1022)"
    by (rule divide_left_mono [OF assms(1)]) (use pos assms(1) in auto)
  also have "\<dots> < (2::real) ^ 1023" by (simp add: power_int_minus)
  finally show "\<bar>s / \<bar>d\<bar>\<bar> < 2 ^ 1023" .
qed

lemma force_value_double_same: "force_value_double a a dir k = Some 0"
  by (simp add: force_value_double_def fsub_def)

lemma force_value_double_rounds_law:
  assumes "fsub a b = Some dx" and "dx \<noteq> 0" and "dir = 1 \<or> dir = - 1"
  shows "force_value_double a b dir 1 = to_double (dir * sgn dx / \<bar>dx\<bar>)"
proof -
  have dbl: "to_double dx = Some dx"
    using assms(1) by (simp add: fsub_def to_double_idem)
  have unit: "dir * sgn dx = 1 \<or> dir * sgn dx = - 1"
    using assms(2,3) by (cases "0 < dx") auto
  have a: "fmul dir (sgn dx) = Some (dir * sgn dx)"
    by (simp add: fmul_def to_double_unit [OF unit])
  have b: "fpow \<bar>dx\<bar> 1 = Some \<bar>dx\<bar>"
    using assms(2) by (simp add: fpow_def to_double_abs [OF dbl])
  show ?thesis
    using assms(2) by (simp add: force_value_double_def assms(1) a b fdiv_def)
qed

lemma force_value_double_swap:
  assumes "fsub a b = Some dx" and "fsub a' b' = Some (- dx)" and "dir = 1 \<or> dir = - 1"
  shows "force_value_double a' b' dir 1 = map_option uminus (force_value_double a b dir 1)"
proof (cases "dx = 0")
  case True
  then show ?thesis using assms by (simp add: force_value_double_def)
next
  case False
  have "force_value_double a' b' dir 1 = to_double (dir * sgn (- dx) / \<bar>- dx\<bar>)"
    by (rule force_value_double_rounds_law [OF assms(2) _ assms(3)]) (use False in simp)
  also have "dir * sgn (- dx) / \<bar>- dx\<bar> = - (dir * sgn dx / \<bar>dx\<bar>)"
    by (simp add: sgn_minus)
  finally show ?thesis
    by (simp add: to_double_minus force_value_double_rounds_law [OF assms(1) False assms(3)])
qed

lemma force_value_double_finite:
  assumes "fsub a b = Some dx" and "dx = 0 \<or> 2 powi (- 1022) \<le> \<bar>dx\<bar>"
    and "dir = 1 \<or> dir = - 1"
  shows "\<exists>f. force_value_double a b dir 1 = Some f
           \<and> (if dx = 0 then f = 0 else to_double (dir * sgn dx / \<bar>dx\<bar>) = Some f)"
proof (cases "dx = 0")
  case True
  then show ?thesis using assms(1) by (simp add: force_value_double_def)
next
  case False
  then have big: "2 powi (- 1022) \<le> \<bar>dx\<bar>" using assms(2) by simp
  have unit: "dir * sgn dx = 1 \<or> dir * sgn dx = - 1"
    using False assms(3) by (cases "0 < dx") auto
  obtain f where "to_double (dir * sgn dx / \<bar>dx\<bar>) = Some f"
    using reciprocal_finite [OF big unit] by blast
  then show ?thesis
    using False by (simp add: force_value_double_rounds_law [OF assms(1) False assms(3)])
qed

lemma midpoint_forces_double:
  assumes "fsub x L = Some d" and "fsub x R = Some (- d)"
    and "d = 0 \<or> 2 powi (- 1022) \<le> \<bar>d\<bar>" and "dir = 1 \<or> dir = - 1"
  shows "\<exists>f. force_value_double x L dir 1 = Some f \<and> force_value_double x R dir 1 = Some (- f)
           \<and> fadd f (- f) = Some 0"
proof -
  obtain f where f: "force_value_double x L dir 1 = Some f"
    using force_value_double_finite [OF assms(1,3,4)] by blast
  have "force_value_double x R dir 1 = Some (- f)"
    using force_value_double_swap [OF assms(1,2,4)] f by simp
  with f show ?thesis by (simp add: fadd_def)
qed

subsection \<open>Rounding at the numbers used below\<close>

lemmas round_defs = round_half_even_def Let_def

lemma dbl_tenth: "to_double (3602879701896397 / 2 ^ 55) = Some (3602879701896397 / 2 ^ 55)"
  by (subst to_double_eval [where e = "- 4"]) (simp_all add: round_defs)

lemma dbl_three_tenths:
  "to_double (5404319552844595 / 2 ^ 54) = Some (5404319552844595 / 2 ^ 54)"
  by (subst to_double_eval [where e = "- 2"]) (simp_all add: round_defs)

lemma dbl_fifth: "to_double (3602879701896397 / 2 ^ 54) = Some (3602879701896397 / 2 ^ 54)"
  by (subst to_double_eval [where e = "- 3"]) (simp_all add: round_defs)

lemma dbl_sum:
  "to_double (3602879701896397 / 2 ^ 55 + 5404319552844595 / 2 ^ 54)
     = Some (3602879701896397 / 2 ^ 53)"
  by (subst to_double_eval [where e = "- 2"]) (simp_all add: round_defs)

lemma dbl_half: "to_double (3602879701896397 / 2 ^ 53 / 2) = Some (3602879701896397 / 2 ^ 54)"
  by (subst to_double_eval [where e = "- 3"]) (simp_all add: round_defs)

lemma dbl_dx_left:
  "to_double (3602879701896397 / 2 ^ 54 - 3602879701896397 / 2 ^ 55)
     = Some (3602879701896397 / 2 ^ 55)"
  by (subst to_double_eval [where e = "- 4"]) (simp_all add: round_defs)

lemma dbl_dx_right:
  "to_double (3602879701896397 / 2 ^ 54 - 5404319552844595 / 2 ^ 54)
     = Some (- (900719925474099 / 2 ^ 53))"
  by (subst to_double_eval [where e = "- 4"]) (simp_all add: round_defs)

lemma dbl_force_left: "to_double (1 / (3602879701896397 / 2 ^ 55)) = Some 10"
  by (subst to_double_eval [where e = 3]) (simp_all add: round_defs)

lemma dbl_force_right:
  "to_double (- (1 / (900719925474099 / 2 ^ 53))) = Some (- (5629499534213121 / 2 ^ 49))"
  by (subst to_double_eval [where e = 3]) (simp_all add: round_defs)

lemma dbl_force_sum: "to_double (10 + - (5629499534213121 / 2 ^ 49)) = Some (- (1 / 2 ^ 49))"
  by (subst to_double_eval [where e = "- 49"]) (simp_all add: round_defs)

lemma dbl_gain_times:
  "to_double (3602879701896397 / 2 ^ 55 * - (1 / 2 ^ 49)) = Some (- (3602879701896397 / 2 ^ 104))"
  by (subst to_double_eval [where e = "- 53"]) (simp_all add: round_defs)

lemma dbl_moved:
  "to_double (3602879701896397 / 2 ^ 54 + - (3602879701896397 / 2 ^ 104))
     = Some (1801439850948197 / 2 ^ 53)"
  by (subst to_double_eval [where e = "- 3"]) (simp_all add: round_defs)

lemma min_subnormal_pos: "0 < min_subnormal"
  by (simp add: min_subnormal_def)

lemma dbl_tiny: "to_double min_subnormal = Some min_subnormal"
  unfolding min_subnormal_def
  by (subst to_double_eval [where e = "- 1074"]) (simp_all add: round_defs)

lemma dbl_tiny2: "to_double (2 * min_subnormal) = Some (2 * min_subnormal)"
  unfolding min_subnormal_def
  by (subst to_double_eval [where e = "- 1073"]) (simp_all add: round_defs)

lemma dbl_tiny_reciprocal: "to_double (1 / min_subnormal) = None"
  unfolding min_subnormal_def
  by (subst to_double_eval [where e = 1074]) (simp_all add: round_defs)

lemma two_to_minus_600_pos: "0 < two_to_minus_600"
  by (simp add: two_to_minus_600_def)

lemma dbl_small: "to_double two_to_minus_600 = Some two_to_minus_600"
  unfolding two_to_minus_600_def
  by (subst to_double_eval [where e = "- 600"]) (simp_all add: round_defs)

lemma dbl_small_squared: "to_double (two_to_minus_600 powi 2) = Some 0"
proof -
  have "two_to_minus_600 powi 2 = 2 powi (- 1200)"
    unfolding two_to_minus_600_def
    using power_int_mult [of "2::real" "- 600" 2] by simp
  moreover have "to_double (2 powi (- 1200)) = Some 0"
    by (subst to_double_eval [where e = "- 1200"]) (simp_all add: round_defs)
  ultimately show ?thesis by (simp only:)
qed

lemma dbl_3: "to_double 3 = Some 3"
  by (subst to_double_eval [where e = 1]) (simp_all add: round_defs)

subsection \<open>The pairwise force on doubles\<close>

text \<open>
  Claim C6 says that the force computation never produces an infinite value and never
  divides by zero. With decay power \<open>1\<close>, a particle at the smallest positive double and
  one at \<open>0\<close>: the separation is not zero, so the guard is passed, and the quotient
  \<open>1 / |dx|\<close> is beyond the largest double. With decay power \<open>2\<close> and a separation of
  \<open>2 ^ (-600)\<close>: the power \<open>|dx| ** 2\<close> rounds to \<open>0\<close> and is the denominator.
\<close>

theorem pairwise_force_not_finite_counterexample:
  "is_double min_subnormal \<and> fsub min_subnormal 0 = Some min_subnormal
   \<and> min_subnormal \<noteq> 0
   \<and> force_value_double min_subnormal 0 1 1 = None
   \<and> is_double two_to_minus_600 \<and> fsub two_to_minus_600 0 = Some two_to_minus_600
   \<and> two_to_minus_600 \<noteq> 0
   \<and> fpow \<bar>two_to_minus_600\<bar> 2 = Some 0
   \<and> force_value_double two_to_minus_600 0 1 2 = None"
proof -
  have dx: "fsub min_subnormal 0 = Some min_subnormal" by (simp add: fsub_def dbl_tiny)
  have "force_value_double min_subnormal 0 1 1
      = to_double (1 * sgn min_subnormal / \<bar>min_subnormal\<bar>)"
    by (rule force_value_double_rounds_law [OF dx]) (use min_subnormal_pos in simp_all)
  also have "1 * sgn min_subnormal / \<bar>min_subnormal\<bar> = 1 / min_subnormal"
    using min_subnormal_pos by simp
  finally have a: "force_value_double min_subnormal 0 1 1 = None"
    by (simp only: dbl_tiny_reciprocal)
  have dx2: "fsub two_to_minus_600 0 = Some two_to_minus_600"
    by (simp add: fsub_def dbl_small)
  have abs2: "\<bar>two_to_minus_600\<bar> = two_to_minus_600" and sgn2: "sgn two_to_minus_600 = 1"
    using two_to_minus_600_pos by simp_all
  have pw: "fpow \<bar>two_to_minus_600\<bar> 2 = Some 0"
    using two_to_minus_600_pos dbl_small_squared by (simp add: fpow_def abs2)
  have pw': "fpow two_to_minus_600 2 = Some 0" using pw by (simp only: abs2)
  have b: "force_value_double two_to_minus_600 0 1 2 = None"
    using two_to_minus_600_pos
    by (simp add: force_value_double_def dx2 sgn2 fmul_def to_double_1 pw' fdiv_def)
  show ?thesis
    using a b dx dx2 pw min_subnormal_pos two_to_minus_600_pos
    by (simp add: is_double_def dbl_tiny dbl_small)
qed

text \<open>
  Claim C6, amended. In double arithmetic: at equal positions the force is exactly \<open>0\<close>,
  for every decay power, through the guarded branch. With decay power \<open>1\<close> and direction
  \<open>1\<close> or \<open>-1\<close>, whenever the computed separation \<open>dx\<close> is a finite double that is zero
  or of magnitude at least \<open>2 ^ (-1022)\<close>, the force is a finite double: for \<open>dx\<close> not
  zero the denominator is \<open>|dx|\<close> itself, not zero, and the force is the double nearest
  to \<open>direction * sign(dx) / |dx|\<close>.
\<close>

theorem pairwise_force_total_in_doubles:
  assumes "fsub a b = Some dx" and "dx = 0 \<or> 2 powi (- 1022) \<le> \<bar>dx\<bar>"
    and "dir = 1 \<or> dir = - 1"
  shows "force_value_double a a dir k = Some 0
   \<and> (\<exists>f. force_value_double a b dir 1 = Some f \<and> is_double f
          \<and> (if dx = 0 then f = 0
              else fpow \<bar>dx\<bar> 1 = Some \<bar>dx\<bar> \<and> \<bar>dx\<bar> \<noteq> 0
                   \<and> to_double (dir * sgn dx / \<bar>dx\<bar>) = Some f))"
proof -
  obtain f where f: "force_value_double a b dir 1 = Some f"
    and law: "if dx = 0 then f = 0 else to_double (dir * sgn dx / \<bar>dx\<bar>) = Some f"
    using force_value_double_finite [OF assms] by blast
  have dbl: "is_double f"
  proof (cases "dx = 0")
    case True
    then show ?thesis using law by (simp add: is_double_def)
  next
    case False
    then show ?thesis using law by (simp add: is_double_to_double)
  qed
  have "to_double dx = Some dx" using assms(1) by (simp add: fsub_def to_double_idem)
  then have "fpow \<bar>dx\<bar> 1 = Some \<bar>dx\<bar>" if "dx \<noteq> 0"
    using that by (simp add: fpow_def to_double_abs)
  then show ?thesis using f law dbl by (auto simp: force_value_double_same)
qed

text \<open>The theorem at the shipped free particle at \<open>1\<close> and the left boundary at \<open>0\<close>.\<close>

theorem pairwise_force_total_in_doubles_witness:
  "fsub 1 0 = Some 1 \<and> 2 powi (- 1022) \<le> \<bar>1 :: real\<bar>
   \<and> force_value_double 1 1 1 1 = Some 0
   \<and> force_value_double 1 0 1 1 = Some 1"
proof -
  have a: "fsub 1 0 = Some 1" by (simp add: fsub_def to_double_1)
  have b: "(1::real) = 0 \<or> 2 powi (- 1022) \<le> \<bar>1 :: real\<bar>"
    by (simp add: power_int_minus field_simps)
  have c: "(1::real) = 1 \<or> (1::real) = - 1" by simp
  from pairwise_force_total_in_doubles [OF a b c, of 1]
  obtain f where "force_value_double 1 1 1 1 = Some 0" "force_value_double 1 0 1 1 = Some f"
    "to_double (1 * sgn 1 / \<bar>1\<bar>) = Some f"
    by auto
  then show ?thesis using a b by (simp add: to_double_1)
qed

subsection \<open>The midpoint on doubles\<close>

lemma direction_unit: "direction cfg = 1 \<or> direction cfg = - 1"
  by (simp add: direction_def)

lemma midpoint_tick_double:
  assumes x: "is_double x"
    and mid: "x = midpoint cfg"
    and d: "fsub x (PARTICLE_LEFT_POSITION cfg) = Some d"
    and big: "d = 0 \<or> 2 powi (- 1022) \<le> \<bar>d\<bar>"
    and k: "FORCE_DECAY_POWER cfg = 1"
  shows "\<exists>f. forces_03_02_double cfg x = Some (f, - f) \<and> fadd f (- f) = Some 0"
    and "update_graphics_03_02_double cfg x = Some x"
proof -
  have "x - PARTICLE_RIGHT_POSITION cfg = - (x - PARTICLE_LEFT_POSITION cfg)"
    by (simp add: mid midpoint_def field_simps)
  then have "fsub x (PARTICLE_RIGHT_POSITION cfg)
      = to_double (- (x - PARTICLE_LEFT_POSITION cfg))"
    by (simp only: fsub_def)
  also have "\<dots> = map_option uminus (to_double (x - PARTICLE_LEFT_POSITION cfg))"
    by (rule to_double_minus)
  also have "\<dots> = Some (- d)" using d by (simp add: fsub_def)
  finally have d': "fsub x (PARTICLE_RIGHT_POSITION cfg) = Some (- d)" .
  obtain f where f: "force_value_double x (PARTICLE_LEFT_POSITION cfg) (direction cfg) 1 = Some f"
      "force_value_double x (PARTICLE_RIGHT_POSITION cfg) (direction cfg) 1 = Some (- f)"
      "fadd f (- f) = Some 0"
    using midpoint_forces_double [OF d d' big direction_unit] by blast
  then have forces: "forces_03_02_double cfg x = Some (f, - f)"
    by (simp add: forces_03_02_double_def k)
  with f(3) show "\<exists>f. forces_03_02_double cfg x = Some (f, - f) \<and> fadd f (- f) = Some 0"
    by blast
  have "fadd x 0 = Some x" using x by (simp add: fadd_def is_double_def)
  then show "update_graphics_03_02_double cfg x = Some x"
    by (simp add: update_graphics_03_02_double_def forces f(3) fmul_def)
qed




end
